theory Spec2Isabelle
  imports Main "HOL-Library.Word" "HOL-Library.AList"
begin

section \<open>Bytes and big-endian integers\<close>

text \<open>
  A Python \<open>bytes\<close> object is a list of 8-bit words. \<open>to_bytes_be n v\<close> is the
  \<open>n\<close>-byte big-endian rendering of \<open>v\<close>; \<open>int_to_bytes\<close> is Python's
  \<open>v.to_bytes(n, byteorder='big')\<close>, which raises \<open>OverflowError\<close> (here \<open>None\<close>) when
  \<open>v\<close> does not fit; \<open>int_from_bytes\<close> is \<open>int.from_bytes(bs, byteorder='big')\<close>,
  defined on byte strings of any length.
\<close>

type_synonym byte = "8 word"
type_synonym bytes = "byte list"

fun to_bytes_be :: "nat \<Rightarrow> nat \<Rightarrow> bytes" where
  "to_bytes_be 0 v = []"
| "to_bytes_be (Suc n) v = to_bytes_be n (v div 256) @ [of_nat (v mod 256)]"

definition int_to_bytes :: "nat \<Rightarrow> nat \<Rightarrow> bytes option" where
  "int_to_bytes v n = (if v < 256 ^ n then Some (to_bytes_be n v) else None)"

definition int_from_bytes :: "bytes \<Rightarrow> nat" where
  "int_from_bytes bs = foldl (\<lambda>a b. a * 256 + unat b) 0 bs"

text \<open>Text that is sent as ASCII: one byte per character.\<close>

definition encode_ascii :: "string \<Rightarrow> bytes" where
  "encode_ascii s = map (\<lambda>c. of_nat (of_char c)) s"

section \<open>The connection\<close>

text \<open>
  A connected stream socket, seen from one end. \<open>inbound\<close> holds the data still to
  arrive, in the pieces in which the network delivers it; once it is used up the peer
  has shut the stream down and \<open>recv\<close> returns the empty byte string.
  \<open>recv s n\<close> is \<open>s.recv(n)\<close>: at most \<open>n\<close> bytes of the piece at the head of the
  stream. A piece of length zero carries no data and is skipped. \<open>outbound\<close> collects
  the bytes handed to \<open>s.send\<close>, which on a blocking socket takes the whole buffer.
  Resets and timeouts of the connection are not part of this model.
\<close>

record sock =
  inbound :: "bytes list"
  outbound :: bytes
  closed :: bool

fun recv_chunks :: "nat \<Rightarrow> bytes list \<Rightarrow> bytes \<times> bytes list" where
  "recv_chunks n [] = ([], [])"
| "recv_chunks n (c # cs) =
     (if c = [] then recv_chunks n cs
      else (take n c, if n < length c then drop n c # cs else cs))"

definition recv :: "sock \<Rightarrow> nat \<Rightarrow> bytes \<times> sock" where
  "recv s n = (let (chunk, rest) = recv_chunks n (inbound s) in (chunk, s\<lparr>inbound := rest\<rparr>))"

definition send :: "sock \<Rightarrow> bytes \<Rightarrow> sock" where
  "send s bs = s\<lparr>outbound := outbound s @ bs\<rparr>"

definition close :: "sock \<Rightarrow> sock" where
  "close s = s\<lparr>closed := True\<rparr>"

definition pending :: "sock \<Rightarrow> nat" where
  "pending s = sum_list (map length (inbound s))"

section \<open>Raw payload frames\<close>

text \<open>
  The loop \<open>for i in range(0, file_size, chunk_size): send(file_data[i:i + chunk_size])\<close>
  of \<open>send_file_data\<close>, entered at index \<open>i\<close>.
\<close>

definition chunk_size :: nat where
  "chunk_size = 4096"

function send_chunks :: "nat \<Rightarrow> sock \<Rightarrow> bytes \<Rightarrow> sock" where
  "send_chunks i s file_data =
     (if i < length file_data
      then send_chunks (i + chunk_size) (send s (take chunk_size (drop i file_data))) file_data
      else s)"
  by pat_completeness auto
termination
  by (relation "measure (\<lambda>(i, s, file_data). length file_data - i)")
     (auto simp: chunk_size_def)

declare send_chunks.simps [simp del]

text \<open>
  \<open>FileServer.send_file_data\<close>. When the size does not fit eight bytes,
  \<open>to_bytes\<close> raises before anything is sent, and the handler only prints.
\<close>

definition send_file_data :: "sock \<Rightarrow> bytes \<Rightarrow> sock" where
  "send_file_data s file_data =
     (let file_size = length file_data in
      case int_to_bytes file_size 8 of
        None \<Rightarrow> s
      | Some size_bytes \<Rightarrow> send_chunks 0 (send s size_bytes) file_data)"

section \<open>Requests, responses and the Python library\<close>

text \<open>
  A response is the dictionary the server builds: \<open>status\<close> is always there, the other
  keys may be absent (\<open>None\<close>). The key \<open>size\<close> is the field \<open>rsize\<close>; the key
  \<open>data\<close> occurs only in the result of \<open>get_file\<close>. An entry of \<open>files\<close> is the
  dictionary of \<open>get_file_info\<close>, with its key \<open>size\<close> as \<open>fsize\<close>.
\<close>

datatype status = Success | Error

record file_info =
  name :: string
  fsize :: "nat option"
  modified :: "string option"
  exists :: bool

record response =
  status :: status
  message :: "string option"
  rsize :: "nat option"
  files :: "file_info list option"
  data :: "bytes option"

text \<open>
  A value of a decoded request: a \<open>str\<close>, or any other JSON value (number, boolean,
  null, array, object), of which the server observes the truth value and the text that
  an f-string gives it, in this order.
\<close>

datatype pyval = PStr string | PObj bool string

fun truthy :: "pyval \<Rightarrow> bool" where
  "truthy (PStr s) = (s \<noteq> [])"
| "truthy (PObj t s) = t"

fun py_str :: "pyval \<Rightarrow> string" where
  "py_str (PStr s) = s"
| "py_str (PObj t s) = s"

text \<open>
  What \<open>json.loads(request_data.decode('utf-8'))\<close> does: it raises
  \<open>json.JSONDecodeError\<close>, or another exception (\<open>UnicodeDecodeError\<close> for bytes that
  are not UTF-8), or returns a value that is not a dictionary, or returns a dictionary.
\<close>

datatype loads_result =
    Raises_JSONDecodeError
  | Raises_other
  | Loaded_non_dict
  | Loaded_dict "string \<Rightarrow> pyval option"

text \<open>
  The exceptions of the file operations: \<open>OSError\<close> stands for every other failure to
  reach a path (\<open>NotADirectoryError\<close>, a name that is too long, the \<open>ValueError\<close> of an
  embedded null character).
\<close>

datatype os_error = TypeError | FileNotFoundError | IsADirectoryError | OSError

text \<open>
  The library functions whose text the server does not contain are parameters:
  \<open>json_loads\<close> as above, \<open>json_dumps r\<close> for \<open>json.dumps(r).encode('utf-8')\<close>,
  \<open>strftime t\<close> for \<open>datetime.fromtimestamp(t).strftime('%Y-%m-%d %H:%M:%S')\<close>, and
  \<open>exc_str e f\<close> for \<open>str(e)\<close> of the exception \<open>e\<close> raised on the file name \<open>f\<close>
  (\<open>None\<close>: on the storage directory itself). A character of a text stands for a code
  point: the characters below 128 for the ASCII code points, the others for code points
  beyond ASCII, which ones being left open. \<open>stdout_encodes c\<close> tells whether the
  encoding of standard output has the code point \<open>c\<close>, which every encoding has when
  \<open>c\<close> is ASCII. \<open>print\<close> raises \<open>UnicodeEncodeError\<close> on a text with a code point
  that standard output cannot encode (a lone surrogate such as \<open>U+D800\<close> under UTF-8,
  every code point beyond ASCII under ASCII), and \<open>can_print\<close> says that it does not.
\<close>

record pylib =
  json_loads :: "bytes \<Rightarrow> loads_result"
  json_dumps :: "response \<Rightarrow> bytes"
  strftime :: "nat \<Rightarrow> string"
  exc_str :: "os_error \<Rightarrow> pyval option \<Rightarrow> string"
  stdout_encodes :: "char \<Rightarrow> bool"

definition can_print :: "pylib \<Rightarrow> string \<Rightarrow> bool" where
  "can_print L t = list_all (\<lambda>c. of_char c < (128 :: nat) \<or> stdout_encodes L c) t"

definition dict_get :: "(string \<Rightarrow> pyval option) \<Rightarrow> string \<Rightarrow> pyval \<Rightarrow> pyval" where
  "dict_get d k dflt = (case d k of None \<Rightarrow> dflt | Some v \<Rightarrow> v)"

definition error_response :: "string \<Rightarrow> response" where
  "error_response msg =
     \<lparr>status = Error, message = Some msg, rsize = None, files = None, data = None\<rparr>"

section \<open>The storage directory\<close>

text \<open>
  The storage directory holds named entries, in the order \<open>os.listdir\<close> reports them;
  an entry is a regular file (content, modification time) or a directory (size and
  modification time as \<open>os.stat\<close> gives them). \<open>root_exists\<close> is false when the storage
  directory itself is gone; \<open>clock\<close> is the time a write stamps on a file.

  The server hands the client's file name to \<open>os.path.join(storage_dir, filename)\<close> as
  it is, so a name is a path. A flat name (not empty, not \<open>.\<close> or \<open>..\<close>, at most 255
  characters, all of them ASCII and none a slash or null) denotes the entry of that name
  in the storage directory. Every other name is resolved by the operating system:
  \<open>other_names\<close> gives for it the place it denotes, which is an entry of the storage
  directory (\<open>./a.txt\<close> is the entry \<open>a.txt\<close>) or a place outside of it (inside a
  sub-directory, above the storage directory, an absolute path), or the error of a path
  that cannot be reached (a missing directory on the way). The objects at the places
  outside that matter are in \<open>outside\<close>. The model is of a POSIX file system whose names
  are case sensitive, without links, which the server's process may read and write.
\<close>

datatype node = RegularFile bytes nat | Directory nat nat

datatype place = Entry string | Outside string

record filesystem =
  root_exists :: bool
  entries :: "(string \<times> node) list"
  outside :: "(string \<times> node) list"
  other_names :: "string \<Rightarrow> os_error + place"
  clock :: nat

definition flat_name :: "string \<Rightarrow> bool" where
  "flat_name p \<longleftrightarrow>
     p \<noteq> [] \<and> p \<noteq> ''.'' \<and> p \<noteq> ''..'' \<and> length p \<le> 255 \<and>
     list_all (\<lambda>c. c \<noteq> CHR ''/'' \<and> (0 :: nat) < of_char c \<and> of_char c < (128 :: nat)) p"

definition resolve :: "filesystem \<Rightarrow> string \<Rightarrow> os_error + place" where
  "resolve fs p =
     (if flat_name p then (if root_exists fs then Inr (Entry p) else Inl FileNotFoundError)
      else other_names fs p)"

definition object_at :: "filesystem \<Rightarrow> place \<Rightarrow> node option" where
  "object_at fs pl =
     (case pl of Entry n \<Rightarrow> map_of (entries fs) n | Outside q \<Rightarrow> map_of (outside fs) q)"

definition put_object :: "filesystem \<Rightarrow> place \<Rightarrow> node \<Rightarrow> filesystem" where
  "put_object fs pl nd =
     (case pl of
        Entry n \<Rightarrow> fs\<lparr>entries := AList.update n nd (entries fs)\<rparr>
      | Outside q \<Rightarrow> fs\<lparr>outside := AList.update q nd (outside fs)\<rparr>)"

definition drop_object :: "filesystem \<Rightarrow> place \<Rightarrow> filesystem" where
  "drop_object fs pl =
     (case pl of
        Entry n \<Rightarrow> fs\<lparr>entries := AList.delete n (entries fs)\<rparr>
      | Outside q \<Rightarrow> fs\<lparr>outside := AList.delete q (outside fs)\<rparr>)"

definition lookup :: "filesystem \<Rightarrow> string \<Rightarrow> node option" where
  "lookup fs p = (case resolve fs p of Inl e \<Rightarrow> None | Inr pl \<Rightarrow> object_at fs pl)"

definition os_path_exists :: "filesystem \<Rightarrow> string \<Rightarrow> bool" where
  "os_path_exists fs p = (lookup fs p \<noteq> None)"

definition os_path_isfile :: "filesystem \<Rightarrow> string \<Rightarrow> bool" where
  "os_path_isfile fs p = (case lookup fs p of Some (RegularFile c t) \<Rightarrow> True | _ \<Rightarrow> False)"

definition os_listdir :: "filesystem \<Rightarrow> os_error + string list" where
  "os_listdir fs = (if root_exists fs then Inr (map fst (entries fs)) else Inl FileNotFoundError)"

definition os_stat :: "filesystem \<Rightarrow> string \<Rightarrow> os_error + nat \<times> nat" where
  "os_stat fs p =
     (case lookup fs p of
        None \<Rightarrow> Inl FileNotFoundError
      | Some (RegularFile c t) \<Rightarrow> Inr (length c, t)
      | Some (Directory n t) \<Rightarrow> Inr (n, t))"

text \<open>\<open>open(p, 'rb')\<close> and \<open>f.read()\<close>.\<close>

definition read_file :: "filesystem \<Rightarrow> string \<Rightarrow> os_error + bytes" where
  "read_file fs p =
     (case resolve fs p of
        Inl e \<Rightarrow> Inl e
      | Inr pl \<Rightarrow>
          (case object_at fs pl of
             None \<Rightarrow> Inl FileNotFoundError
           | Some (RegularFile c t) \<Rightarrow> Inr c
           | Some (Directory n t) \<Rightarrow> Inl IsADirectoryError))"

text \<open>
  \<open>open(p, 'wb')\<close> and \<open>f.write(file_data)\<close>: the path has to lead to a place, and the
  place must not hold a directory; the file there is created or truncated.
\<close>

definition write_file :: "filesystem \<Rightarrow> string \<Rightarrow> bytes \<Rightarrow> os_error + filesystem" where
  "write_file fs p file_data =
     (case resolve fs p of
        Inl e \<Rightarrow> Inl e
      | Inr pl \<Rightarrow>
          (case object_at fs pl of
             Some (Directory n t) \<Rightarrow> Inl IsADirectoryError
           | _ \<Rightarrow> Inr (put_object fs pl (RegularFile file_data (clock fs)))))"

definition os_remove :: "filesystem \<Rightarrow> string \<Rightarrow> os_error + filesystem" where
  "os_remove fs p =
     (case resolve fs p of
        Inl e \<Rightarrow> Inl e
      | Inr pl \<Rightarrow>
          (case object_at fs pl of
             None \<Rightarrow> Inl FileNotFoundError
           | Some (RegularFile c t) \<Rightarrow> Inr (drop_object fs pl)
           | Some (Directory n t) \<Rightarrow> Inl IsADirectoryError))"


section \<open>The file store of the server\<close>

text \<open>
  \<open>FileServer.get_file_info\<close>, \<open>list_files\<close>, \<open>store_file\<close>, \<open>delete_file\<close> and
  \<open>get_file\<close>. Each \<open>try ... except Exception as e\<close> becomes the \<open>Inl\<close> branch of the
  operation that can raise. A file name that is not a \<open>str\<close> makes \<open>os.path.join\<close>
  raise \<open>TypeError\<close>.
\<close>

definition get_file_info :: "pylib \<Rightarrow> filesystem \<Rightarrow> string \<Rightarrow> os_error + file_info" where
  "get_file_info L fs filename =
     (if os_path_exists fs filename then
        (case os_stat fs filename of
           Inl e \<Rightarrow> Inl e
         | Inr (st_size, st_mtime) \<Rightarrow>
             Inr \<lparr>name = filename, fsize = Some st_size,
                  modified = Some (strftime L st_mtime), exists = True\<rparr>)
      else Inr \<lparr>name = filename, fsize = None, modified = None, exists = False\<rparr>)"

fun list_files_loop ::
  "pylib \<Rightarrow> filesystem \<Rightarrow> string list \<Rightarrow> file_info list \<Rightarrow> os_error + file_info list" where
  "list_files_loop L fs [] fl = Inr fl"
| "list_files_loop L fs (filename # rest) fl =
     (if os_path_isfile fs filename then
        (case get_file_info L fs filename of
           Inl e \<Rightarrow> Inl e
         | Inr info \<Rightarrow> list_files_loop L fs rest (fl @ [info]))
      else list_files_loop L fs rest fl)"

definition list_files :: "pylib \<Rightarrow> filesystem \<Rightarrow> response" where
  "list_files L fs =
     (case os_listdir fs of
        Inl e \<Rightarrow> error_response (exc_str L e None)
      | Inr names \<Rightarrow>
          (case list_files_loop L fs names [] of
             Inl e \<Rightarrow> error_response (exc_str L e None)
           | Inr fl \<Rightarrow>
               \<lparr>status = Success, message = None, rsize = None, files = Some fl, data = None\<rparr>))"

definition store_file :: "pylib \<Rightarrow> filesystem \<Rightarrow> pyval \<Rightarrow> bytes \<Rightarrow> response \<times> filesystem" where
  "store_file L fs filename file_data =
     (case filename of
        PObj t s \<Rightarrow> (error_response (exc_str L TypeError (Some filename)), fs)
      | PStr fn \<Rightarrow>
          (case write_file fs fn file_data of
             Inl e \<Rightarrow> (error_response (exc_str L e (Some filename)), fs)
           | Inr fs' \<Rightarrow>
               (\<lparr>status = Success,
                 message = Some (''File '' @ fn @ '' stored successfully''),
                 rsize = Some (length file_data), files = None, data = None\<rparr>, fs')))"

definition delete_file :: "pylib \<Rightarrow> filesystem \<Rightarrow> pyval \<Rightarrow> response \<times> filesystem" where
  "delete_file L fs filename =
     (case filename of
        PObj t s \<Rightarrow> (error_response (exc_str L TypeError (Some filename)), fs)
      | PStr fn \<Rightarrow>
          (if os_path_exists fs fn then
             (case os_remove fs fn of
                Inl e \<Rightarrow> (error_response (exc_str L e (Some filename)), fs)
              | Inr fs' \<Rightarrow>
                  (\<lparr>status = Success,
                    message = Some (''File '' @ fn @ '' deleted successfully''),
                    rsize = None, files = None, data = None\<rparr>, fs'))
           else (error_response (''File '' @ fn @ '' not found''), fs)))"

definition get_file :: "pylib \<Rightarrow> filesystem \<Rightarrow> pyval \<Rightarrow> response" where
  "get_file L fs filename =
     (case filename of
        PObj t s \<Rightarrow> error_response (exc_str L TypeError (Some filename))
      | PStr fn \<Rightarrow>
          (if os_path_exists fs fn then
             (case read_file fs fn of
                Inl e \<Rightarrow> error_response (exc_str L e (Some filename))
              | Inr file_data \<Rightarrow>
                  \<lparr>status = Success, message = None, rsize = Some (length file_data),
                   files = None, data = Some file_data\<rparr>)
           else error_response (''File '' @ fn @ '' not found'')))"

section \<open>Control frames\<close>

text \<open>
  \<open>FileServer.send_response\<close>. A length that does not fit four bytes makes
  \<open>to_bytes\<close> raise before the first \<open>send\<close>; the handler prints and nothing is sent.
\<close>

definition send_response :: "pylib \<Rightarrow> sock \<Rightarrow> response \<Rightarrow> sock" where
  "send_response L s r =
     (let response_bytes = json_dumps L r;
          len = length response_bytes in
      case int_to_bytes len 4 of
        None \<Rightarrow> s
      | Some length_bytes \<Rightarrow> send (send s length_bytes) response_bytes)"

section \<open>Receiving a raw payload\<close>

text \<open>
  The \<open>while len(file_data) < file_size\<close> loop of \<open>FileServer.receive_file_data\<close>: it
  leaves at the first empty \<open>recv\<close> with what it has.
\<close>

function recv_loop :: "nat \<Rightarrow> bytes \<Rightarrow> sock \<Rightarrow> bytes \<times> sock" where
  "recv_loop file_size file_data s =
     (if length file_data < file_size then
        (case recv s (min 4096 (file_size - length file_data)) of
           (chunk, s') \<Rightarrow>
             if chunk = [] then (file_data, s')
             else recv_loop file_size (file_data @ chunk) s')
      else (file_data, s))"
  by pat_completeness auto
termination
  by (relation "measure (\<lambda>(file_size, file_data, s). file_size - length file_data)")
     (auto simp: neq_Nil_conv)

declare recv_loop.simps [simp del]

text \<open>\<open>FileServer.receive_file_data\<close>: \<open>None\<close> is Python's \<open>None\<close>.\<close>

definition receive_file_data :: "sock \<Rightarrow> bytes option \<times> sock" where
  "receive_file_data s =
     (case recv s 8 of
        (size_bytes, s1) \<Rightarrow>
          if length size_bytes \<noteq> 8 then (None, s1)
          else
            (let file_size = int_from_bytes size_bytes in
             case recv_loop file_size [] s1 of
               (file_data, s2) \<Rightarrow> (Some file_data, s2)))"

section \<open>The request loop of the server\<close>

datatype loop_ctl = Continue | Break

text \<open>The five commands the dispatcher has a branch for.\<close>

definition known_command :: "pyval \<Rightarrow> bool" where
  "known_command c \<longleftrightarrow>
     c = PStr ''LIST'' \<or> c = PStr ''UPLOAD'' \<or> c = PStr ''DOWNLOAD'' \<or> c = PStr ''DELETE'' \<or>
     c = PStr ''QUIT''"

text \<open>
  The body of the \<open>try\<close> in the loop of \<open>FileServer.handle_client\<close>, from
  \<open>command = request.get('command', '')\<close> on: one branch per command, each ending in
  the \<open>send_response\<close> of the source. The \<open>print\<close> of the command comes first and
  is inside the \<open>try\<close>: when it raises, the exception is not a
  \<open>json.JSONDecodeError\<close>, so it reaches the outer handler, which leaves the loop.
\<close>

definition handle_request ::
  "pylib \<Rightarrow> (string \<Rightarrow> pyval option) \<Rightarrow> sock \<times> filesystem
     \<Rightarrow> loop_ctl \<times> sock \<times> filesystem" where
  "handle_request L request w =
     (case w of (s, fs) \<Rightarrow>
      let command = dict_get request ''command'' (PStr []) in
      if \<not> can_print L (py_str command) then (Break, s, fs)
      else if command = PStr ''LIST'' then
        (let r = list_files L fs in (Continue, send_response L s r, fs))
      else if command = PStr ''UPLOAD'' then
        (let filename = dict_get request ''filename'' (PStr []) in
         if truthy filename then
           (case receive_file_data s of
              (Some file_data, s') \<Rightarrow>
                (case store_file L fs filename file_data of
                   (r, fs') \<Rightarrow> (Continue, send_response L s' r, fs'))
            | (None, s') \<Rightarrow>
                (Continue,
                 send_response L s' (error_response ''Failed to receive file data''), fs))
         else (Continue, send_response L s (error_response ''Filename not provided''), fs))
      else if command = PStr ''DOWNLOAD'' then
        (let filename = dict_get request ''filename'' (PStr []) in
         if truthy filename then
           (let result = get_file L fs filename in
            if status result = Success then
              (let r = \<lparr>status = Success, message = None, rsize = rsize result,
                        files = None, data = None\<rparr>
               in (Continue,
                   send_file_data (send_response L s r)
                     (case data result of Some d \<Rightarrow> d | None \<Rightarrow> []),
                   fs))
            else (Continue, send_response L s result, fs))
         else (Continue, send_response L s (error_response ''Filename not provided''), fs))
      else if command = PStr ''DELETE'' then
        (let filename = dict_get request ''filename'' (PStr []) in
         if truthy filename then
           (case delete_file L fs filename of
              (r, fs') \<Rightarrow> (Continue, send_response L s r, fs'))
         else (Continue, send_response L s (error_response ''Filename not provided''), fs))
      else if command = PStr ''QUIT'' then
        (Break,
         send_response L s
           \<lparr>status = Success, message = Some ''Goodbye!'', rsize = None, files = None,
            data = None\<rparr>,
         fs)
      else
        (Continue,
         send_response L s (error_response (''Unknown command: '' @ py_str command)), fs))"

text \<open>
  One turn of the \<open>while True\<close> loop. An exception other than
  \<open>json.JSONDecodeError\<close> inside the \<open>try\<close> (the decoding of bytes that are not UTF-8,
  \<open>request.get\<close> on a value that is not a dictionary) reaches the outer handler, which
  leaves the loop.
\<close>

definition step :: "pylib \<Rightarrow> sock \<times> filesystem \<Rightarrow> loop_ctl \<times> sock \<times> filesystem" where
  "step L w =
     (case w of (s, fs) \<Rightarrow>
      case recv s 4 of
        (length_bytes, s1) \<Rightarrow>
          if length_bytes = [] then (Break, s1, fs)
          else
            (let request_length = int_from_bytes length_bytes in
             case recv s1 request_length of
               (request_data, s2) \<Rightarrow>
                 if request_data = [] then (Break, s2, fs)
                 else
                   (case json_loads L request_data of
                      Raises_JSONDecodeError \<Rightarrow>
                        (Continue,
                         send_response L s2 (error_response ''Invalid request format''), fs)
                    | Raises_other \<Rightarrow> (Break, s2, fs)
                    | Loaded_non_dict \<Rightarrow> (Break, s2, fs)
                    | Loaded_dict request \<Rightarrow> handle_request L request (s2, fs))))"

subsection \<open>The loop ends: every turn that continues has read from the stream\<close>

lemma recv_chunks_total:
  "recv_chunks n cs = (chunk, rest) \<Longrightarrow>
     sum_list (map length rest) + length chunk = sum_list (map length cs)"
  by (induction cs) (auto split: if_splits)

lemma recv_pending:
  "recv s n = (chunk, s') \<Longrightarrow> pending s' + length chunk = pending s"
  by (auto simp: recv_def pending_def split: prod.splits dest: recv_chunks_total)

lemma recv_loop_pending:
  "recv_loop file_size file_data s = (file_data', s') \<Longrightarrow>
     pending s' + length file_data' = pending s + length file_data"
proof (induction file_size file_data s rule: recv_loop.induct)
  case (1 file_size file_data s)
  show ?case
  proof (cases "length file_data < file_size")
    case False
    with "1.prems" show ?thesis by (simp add: recv_loop.simps [of file_size file_data s])
  next
    case True
    obtain chunk s1 where r: "recv s (min 4096 (file_size - length file_data)) = (chunk, s1)"
      by (cases "recv s (min 4096 (file_size - length file_data))")
    show ?thesis
    proof (cases "chunk = []")
      case True
      with \<open>length file_data < file_size\<close> r "1.prems" recv_pending [OF r]
      show ?thesis by (simp add: recv_loop.simps [of file_size file_data s])
    next
      case False
      with \<open>length file_data < file_size\<close> r "1.prems"
      have "recv_loop file_size (file_data @ chunk) s1 = (file_data', s')"
        by (simp add: recv_loop.simps [of file_size file_data s])
      with "1.IH" [OF True r [symmetric] False]
      have "pending s' + length file_data' = pending s1 + length (file_data @ chunk)" by simp
      with recv_pending [OF r] show ?thesis by simp
    qed
  qed
qed

lemma receive_file_data_pending:
  assumes "receive_file_data s = (r, s')"
  shows "pending s' \<le> pending s"
proof -
  obtain size_bytes s1 where r1: "recv s 8 = (size_bytes, s1)" by (cases "recv s 8")
  from recv_pending [OF r1] have le1: "pending s1 \<le> pending s" by simp
  show ?thesis
  proof (cases "length size_bytes = 8")
    case False
    with assms r1 le1 show ?thesis by (simp add: receive_file_data_def)
  next
    case True
    obtain file_data s2 where
      r2: "recv_loop (int_from_bytes size_bytes) [] s1 = (file_data, s2)"
      by (cases "recv_loop (int_from_bytes size_bytes) [] s1")
    from recv_loop_pending [OF r2] have "pending s2 \<le> pending s1" by simp
    with assms r1 r2 True le1 show ?thesis by (simp add: receive_file_data_def Let_def)
  qed
qed

lemma inbound_send [simp]: "inbound (send s bs) = inbound s"
  by (simp add: send_def)

lemma inbound_send_chunks [simp]: "inbound (send_chunks i s file_data) = inbound s"
proof (induction i s file_data rule: send_chunks.induct)
  case (1 i s file_data)
  then show ?case by (subst send_chunks.simps) simp
qed

lemma inbound_send_file_data [simp]: "inbound (send_file_data s file_data) = inbound s"
  by (simp add: send_file_data_def split: option.splits)

lemma inbound_send_response [simp]: "inbound (send_response L s r) = inbound s"
  by (simp add: send_response_def Let_def split: option.splits)

lemma pending_send_response [simp]: "pending (send_response L s r) = pending s"
  by (simp add: pending_def)

lemma pending_send_file_data [simp]: "pending (send_file_data s file_data) = pending s"
  by (simp add: pending_def)


lemma handle_request_LIST:
  "dict_get request ''command'' (PStr []) = PStr ''LIST'' \<Longrightarrow>
     handle_request L request (s, fs) = (Continue, send_response L s (list_files L fs), fs)"
  by (simp add: handle_request_def Let_def can_print_def)

lemma handle_request_UPLOAD:
  "dict_get request ''command'' (PStr []) = PStr ''UPLOAD'' \<Longrightarrow>
     handle_request L request (s, fs) =
       (let filename = dict_get request ''filename'' (PStr []) in
        if truthy filename then
          (case receive_file_data s of
             (Some file_data, s') \<Rightarrow>
               (case store_file L fs filename file_data of
                  (r, fs') \<Rightarrow> (Continue, send_response L s' r, fs'))
           | (None, s') \<Rightarrow>
               (Continue,
                send_response L s' (error_response ''Failed to receive file data''), fs))
        else (Continue, send_response L s (error_response ''Filename not provided''), fs))"
  by (simp add: handle_request_def Let_def can_print_def)

lemma handle_request_DOWNLOAD:
  "dict_get request ''command'' (PStr []) = PStr ''DOWNLOAD'' \<Longrightarrow>
     handle_request L request (s, fs) =
       (let filename = dict_get request ''filename'' (PStr []) in
        if truthy filename then
          (let result = get_file L fs filename in
           if status result = Success then
             (Continue,
              send_file_data
                (send_response L s
                   \<lparr>status = Success, message = None, rsize = rsize result,
                    files = None, data = None\<rparr>)
                (case data result of Some d \<Rightarrow> d | None \<Rightarrow> []),
              fs)
           else (Continue, send_response L s result, fs))
        else (Continue, send_response L s (error_response ''Filename not provided''), fs))"
  by (simp add: handle_request_def Let_def can_print_def)

lemma handle_request_DELETE:
  "dict_get request ''command'' (PStr []) = PStr ''DELETE'' \<Longrightarrow>
     handle_request L request (s, fs) =
       (let filename = dict_get request ''filename'' (PStr []) in
        if truthy filename then
          (case delete_file L fs filename of
             (r, fs') \<Rightarrow> (Continue, send_response L s r, fs'))
        else (Continue, send_response L s (error_response ''Filename not provided''), fs))"
  by (simp add: handle_request_def Let_def can_print_def)

lemma handle_request_QUIT:
  "dict_get request ''command'' (PStr []) = PStr ''QUIT'' \<Longrightarrow>
     handle_request L request (s, fs) =
       (Break,
        send_response L s
          \<lparr>status = Success, message = Some ''Goodbye!'', rsize = None, files = None,
           data = None\<rparr>,
        fs)"
  by (simp add: handle_request_def Let_def can_print_def)

lemma handle_request_unprintable:
  "\<not> can_print L (py_str (dict_get request ''command'' (PStr []))) \<Longrightarrow>
     handle_request L request (s, fs) = (Break, s, fs)"
  by (simp add: handle_request_def Let_def)

lemma handle_request_unknown:
  "\<not> known_command (dict_get request ''command'' (PStr [])) \<Longrightarrow>
   can_print L (py_str (dict_get request ''command'' (PStr []))) \<Longrightarrow>
     handle_request L request (s, fs) =
       (Continue,
        send_response L s
          (error_response
             (''Unknown command: '' @ py_str (dict_get request ''command'' (PStr [])))),
        fs)"
  by (simp add: handle_request_def Let_def known_command_def)

lemmas handle_request_cases =
  handle_request_LIST handle_request_UPLOAD handle_request_DOWNLOAD handle_request_DELETE
  handle_request_QUIT handle_request_unknown handle_request_unprintable

lemma handle_request_pending:
  assumes "handle_request L request (s, fs) = (c, s', fs')"
  shows "pending s' \<le> pending s"
proof -
  let ?cmd = "dict_get request ''command'' (PStr [])"
  consider "?cmd = PStr ''LIST''" | "?cmd = PStr ''UPLOAD''" | "?cmd = PStr ''DOWNLOAD''"
    | "?cmd = PStr ''DELETE''" | "?cmd = PStr ''QUIT''"
    | "\<not> known_command ?cmd" "can_print L (py_str ?cmd)"
    | "\<not> can_print L (py_str ?cmd)"
    unfolding known_command_def by blast
  then show ?thesis
  proof cases
    case 7
    with assms show ?thesis by (auto simp: handle_request_unprintable)
  next
    case 1
    with assms show ?thesis by (auto simp: handle_request_LIST)
  next
    case 2
    obtain r s1 where rf: "receive_file_data s = (r, s1)" by (cases "receive_file_data s")
    from receive_file_data_pending [OF rf] have le: "pending s1 \<le> pending s" .
    from assms 2 rf le show ?thesis
      by (auto simp: handle_request_UPLOAD Let_def
          split: if_splits option.splits prod.splits)
  next
    case 3
    with assms show ?thesis
      by (auto simp: handle_request_DOWNLOAD Let_def split: if_splits)
  next
    case 4
    with assms show ?thesis
      by (auto simp: handle_request_DELETE Let_def split: if_splits prod.splits)
  next
    case 5
    with assms show ?thesis by (auto simp: handle_request_QUIT)
  next
    case 6
    with assms show ?thesis by (auto simp: handle_request_unknown)
  qed
qed

lemma step_pending:
  assumes "step L (s, fs) = (Continue, s', fs')"
  shows "pending s' < pending s"
proof -
  obtain length_bytes s1 where r1: "recv s 4 = (length_bytes, s1)" by (cases "recv s 4")
  obtain request_data s2 where
    r2: "recv s1 (int_from_bytes length_bytes) = (request_data, s2)"
    by (cases "recv s1 (int_from_bytes length_bytes)")
  from assms r1 have ne: "length_bytes \<noteq> []"
    by (auto simp: step_def)
  with recv_pending [OF r1] have "pending s1 < pending s"
    by (cases length_bytes) auto
  moreover from recv_pending [OF r2] have "pending s2 \<le> pending s1" by simp
  moreover have "pending s' \<le> pending s2"
  proof (cases "json_loads L request_data")
    case (Loaded_dict request)
    with assms r1 r2 ne have "handle_request L request (s2, fs) = (Continue, s', fs')"
      by (simp add: step_def Let_def split: if_splits)
    then show ?thesis by (rule handle_request_pending)
  qed (use assms r1 r2 ne in \<open>auto simp: step_def Let_def split: if_splits\<close>)
  ultimately show ?thesis by simp
qed

text \<open>
  The \<open>while True\<close> loop of \<open>FileServer.handle_client\<close>, and the function itself,
  whose \<open>finally\<close> closes the socket.
\<close>

function handle_client_loop :: "pylib \<Rightarrow> sock \<times> filesystem \<Rightarrow> sock \<times> filesystem" where
  "handle_client_loop L w =
     (case step L w of
        (Continue, w') \<Rightarrow> handle_client_loop L w'
      | (Break, w') \<Rightarrow> w')"
  by pat_completeness auto
termination
proof (relation "measure (\<lambda>(L, w). pending (fst w))")
  show "wf (measure (\<lambda>(L, w). pending (fst w)))" by simp
next
  fix L :: pylib and w :: "sock \<times> filesystem" and x1 x2
  assume "(x1, x2) = step L w" "x1 = Continue"
  then have "step L (fst w, snd w) = (Continue, fst x2, snd x2)" by simp
  then have "pending (fst x2) < pending (fst w)" by (rule step_pending)
  then show "((L, x2), (L, w)) \<in> measure (\<lambda>(L, w). pending (fst w))" by simp
qed


declare handle_client_loop.simps [simp del]

definition handle_client :: "pylib \<Rightarrow> sock \<times> filesystem \<Rightarrow> sock \<times> filesystem" where
  "handle_client L w = (case handle_client_loop L w of (s, fs) \<Rightarrow> (close s, fs))"

section \<open>The sending side of the client\<close>

text \<open>
  \<open>FileClient.send_request\<close> and \<open>FileClient.send_file_data\<close>. The request is the
  dictionary with the keys \<open>command\<close> and \<open>filename\<close>; its encoder
  (\<open>json.dumps(request).encode('utf-8')\<close>) is the parameter \<open>dumps\<close>. \<open>send_request\<close>
  raises again what it catches (\<open>None\<close>); \<open>send_file_data\<close>, given the content read
  from the local file, returns \<open>False\<close> instead.
\<close>

record request =
  rq_command :: string
  rq_filename :: "string option"

definition send_request :: "(request \<Rightarrow> bytes) \<Rightarrow> sock \<Rightarrow> request \<Rightarrow> sock option" where
  "send_request dumps s rq =
     (let request_bytes = dumps rq;
          len = length request_bytes in
      case int_to_bytes len 4 of
        None \<Rightarrow> None
      | Some length_bytes \<Rightarrow> Some (send (send s length_bytes) request_bytes))"

definition client_send_file_data :: "sock \<Rightarrow> bytes \<Rightarrow> bool \<times> sock" where
  "client_send_file_data s file_data =
     (let file_size = length file_data in
      case int_to_bytes file_size 8 of
        None \<Rightarrow> (False, s)
      | Some size_bytes \<Rightarrow> (True, send_chunks 0 (send s size_bytes) file_data))"

section \<open>The wire format of the specification\<close>

text \<open>
  \<open>is_frame k payload fr\<close>: the byte string \<open>fr\<close> is a \<open>k\<close>-byte big-endian unsigned
  length followed by exactly that many bytes, which are \<open>payload\<close>. A control frame has
  \<open>k = 4\<close>, a raw payload frame \<open>k = 8\<close>. \<open>written s s'\<close> are the bytes that were
  sent between the socket states \<open>s\<close> and \<open>s'\<close>.
\<close>

definition is_frame :: "nat \<Rightarrow> bytes \<Rightarrow> bytes \<Rightarrow> bool" where
  "is_frame k payload fr \<longleftrightarrow>
     length fr = k + length payload \<and>
     int_from_bytes (take k fr) = length payload \<and>
     drop k fr = payload"

definition written :: "sock \<Rightarrow> sock \<Rightarrow> bytes" where
  "written s s' = drop (length (outbound s)) (outbound s')"

text \<open>
  The bytes that a response \<open>r\<close> takes on the wire, and the bytes of the raw payload
  frame of the content \<open>d\<close>: the length, big-endian on four and on eight bytes, and
  then the encoded response or the content. A length that has no such rendering cannot
  be framed, and there are no bytes for it.
\<close>

definition control_frame :: "pylib \<Rightarrow> response \<Rightarrow> bytes" where
  "control_frame L r =
     (if length (json_dumps L r) < 2 ^ 32
      then to_bytes_be 4 (length (json_dumps L r)) @ json_dumps L r else [])"

definition payload_frame :: "bytes \<Rightarrow> bytes" where
  "payload_frame d = (if length d < 2 ^ 64 then to_bytes_be 8 (length d) @ d else [])"

section \<open>A concrete library for the examples\<close>

text \<open>
  The theorems below hold for every library \<open>L\<close>. Their examples run with
  \<open>example_lib\<close>: \<open>dumps_response\<close> writes a response the way \<open>json.dumps\<close> does
  (keys in insertion order, \<open>", "\<close> and \<open>": "\<close> as separators, every character
  outside the printable ASCII range escaped); \<open>example_loads\<close> agrees with
  \<open>json.loads\<close> on the requests listed in it and reports a decode error on everything
  else, as \<open>json.loads\<close> does on the text \<open>x\<close>; the time stamp and the texts of the
  exceptions are fixed strings; standard output is ASCII, so that it encodes no
  character beyond ASCII.
\<close>

fun dec :: "nat \<Rightarrow> string" where
  "dec n = (if n < 10 then [char_of (48 + n)] else dec (n div 10) @ [char_of (48 + n mod 10)])"

declare dec.simps [simp del]

definition hex_digit :: "nat \<Rightarrow> char" where
  "hex_digit n = (if n < 10 then char_of (48 + n) else char_of (87 + n))"

definition json_escape :: "char \<Rightarrow> string" where
  "json_escape c =
     (let n = (of_char c :: nat) in
      if n = 34 then [CHR 0x5C, CHR 0x22]
      else if n = 92 then [CHR 0x5C, CHR 0x5C]
      else if n = 10 then [CHR 0x5C, CHR ''n'']
      else if n = 13 then [CHR 0x5C, CHR ''r'']
      else if n = 9 then [CHR 0x5C, CHR ''t'']
      else if n = 8 then [CHR 0x5C, CHR ''b'']
      else if n = 12 then [CHR 0x5C, CHR ''f'']
      else if n < 32 \<or> 126 < n then
        [CHR 0x5C, CHR ''u'', CHR ''0'', CHR ''0'', hex_digit (n div 16), hex_digit (n mod 16)]
      else [c])"

definition json_string :: "string \<Rightarrow> string" where
  "json_string s = [CHR 0x22] @ concat (map json_escape s) @ [CHR 0x22]"

fun join :: "string \<Rightarrow> string list \<Rightarrow> string" where
  "join sep [] = []"
| "join sep [x] = x"
| "join sep (x # y # ys) = x @ sep @ join sep (y # ys)"

definition dumps_file_info :: "file_info \<Rightarrow> string" where
  \<open>dumps_file_info i =
     ''{"name": '' @ json_string (name i) @
     (case fsize i of None \<Rightarrow> [] | Some n \<Rightarrow> '', "size": '' @ dec n) @
     (case modified i of None \<Rightarrow> [] | Some m \<Rightarrow> '', "modified": '' @ json_string m) @
     '', "exists": '' @ (if exists i then ''true'' else ''false'') @ ''}''\<close>

definition dumps_response :: "response \<Rightarrow> string" where
  \<open>dumps_response r =
     ''{"status": '' @ (case status r of Success \<Rightarrow> ''"success"'' | Error \<Rightarrow> ''"error"'') @
     (case message r of None \<Rightarrow> [] | Some m \<Rightarrow> '', "message": '' @ json_string m) @
     (case rsize r of None \<Rightarrow> [] | Some n \<Rightarrow> '', "size": '' @ dec n) @
     (case files r of None \<Rightarrow> []
      | Some fl \<Rightarrow> '', "files": ['' @ join '', '' (map dumps_file_info fl) @ '']'') @
     ''}''\<close>

definition example_requests :: "(string \<times> loads_result) list" where
  \<open>example_requests =
     [(''{"command": "LIST"}'', Loaded_dict [''command'' \<mapsto> PStr ''LIST'']),
      (''{"command": "QUIT"}'', Loaded_dict [''command'' \<mapsto> PStr ''QUIT'']),
      (''{"command": "list"}'', Loaded_dict [''command'' \<mapsto> PStr ''list'']),
      (''{"command": "FOO"}'', Loaded_dict [''command'' \<mapsto> PStr ''FOO'']),
      (''{"filename": "a.txt"}'', Loaded_dict [''filename'' \<mapsto> PStr ''a.txt'']),
      (''{"command": "UPLOAD"}'', Loaded_dict [''command'' \<mapsto> PStr ''UPLOAD'']),
      (''{"command": "UPLOAD", "filename": "a.txt"}'',
         Loaded_dict [''command'' \<mapsto> PStr ''UPLOAD'', ''filename'' \<mapsto> PStr ''a.txt'']),
      (''{"command": "DOWNLOAD", "filename": "a.txt"}'',
         Loaded_dict [''command'' \<mapsto> PStr ''DOWNLOAD'', ''filename'' \<mapsto> PStr ''a.txt'']),
      (''{"command": "DOWNLOAD", "filename": ""}'',
         Loaded_dict [''command'' \<mapsto> PStr ''DOWNLOAD'', ''filename'' \<mapsto> PStr []]),
      (''{"command": "DELETE", "filename": "a.txt"}'',
         Loaded_dict [''command'' \<mapsto> PStr ''DELETE'', ''filename'' \<mapsto> PStr ''a.txt'']),
      (''{"command": "'' @ [CHR 0x5C] @ ''u00e9"}'', Loaded_dict [''command'' \<mapsto> PStr [CHR 0xE9]]),
      (''[]'', Loaded_non_dict)]\<close>

definition example_loads :: "bytes \<Rightarrow> loads_result" where
  "example_loads bs =
     (case map_of (map (\<lambda>(t, v). (encode_ascii t, v)) example_requests) bs of
        Some v \<Rightarrow> v
      | None \<Rightarrow> if bs = [0xFF] then Raises_other else Raises_JSONDecodeError)"

definition example_lib :: pylib where
  "example_lib =
     \<lparr>json_loads = example_loads,
      json_dumps = (\<lambda>r. encode_ascii (dumps_response r)),
      strftime = (\<lambda>t. ''2024-01-01 00:00:00''),
      exc_str = (\<lambda>e f. case e of
         TypeError \<Rightarrow> ''expected str, bytes or os.PathLike object''
       | FileNotFoundError \<Rightarrow> ''[Errno 2] No such file or directory''
       | IsADirectoryError \<Rightarrow> ''[Errno 21] Is a directory''
       | OSError \<Rightarrow> ''[Errno 20] Not a directory''),
      stdout_encodes = (\<lambda>c. False)\<rparr>"

text \<open>
  A storage directory with the file \<open>a.txt\<close> (content \<open>hi\<close>) and the directory
  \<open>sub\<close>, an empty one, and a socket on which nothing has happened yet. Of the names
  that are not flat, \<open>./a.txt\<close> is the entry \<open>a.txt\<close>; the others lead through a
  directory that does not exist (\<open>nodir/x.txt\<close> is the one the examples use).
\<close>

definition example_other_names :: "string \<Rightarrow> os_error + place" where
  "example_other_names p = (if p = ''./a.txt'' then Inr (Entry ''a.txt'') else Inl FileNotFoundError)"

definition fs_example :: filesystem where
  "fs_example =
     \<lparr>root_exists = True,
      entries = [(''a.txt'', RegularFile (encode_ascii ''hi'') 7), (''sub'', Directory 4096 3)],
      outside = [], other_names = example_other_names,
      clock = 9\<rparr>"

definition fs_empty :: filesystem where
  "fs_empty =
     \<lparr>root_exists = True, entries = [], outside = [], other_names = example_other_names,
      clock = 9\<rparr>"

definition sock_of :: "bytes list \<Rightarrow> sock" where
  "sock_of chunks = \<lparr>inbound = chunks, outbound = [], closed = False\<rparr>"

text \<open>The control frame that carries the ASCII text \<open>t\<close>, for the examples.\<close>

definition control_frame_of :: "string \<Rightarrow> bytes" where
  "control_frame_of t = to_bytes_be 4 (length t) @ encode_ascii t"

section \<open>Reading one control frame\<close>

text \<open>
  \<open>reads_frame s request_data s2\<close>: the two \<open>recv\<close> calls at the head of the loop
  return a length prefix and then a payload, both non-empty; \<open>request_data\<close> is the
  payload and \<open>s2\<close> the socket after them.
\<close>

definition reads_frame :: "sock \<Rightarrow> bytes \<Rightarrow> sock \<Rightarrow> bool" where
  "reads_frame s request_data s2 \<longleftrightarrow>
     (case recv s 4 of
        (length_bytes, s1) \<Rightarrow>
          length_bytes \<noteq> [] \<and>
          recv s1 (int_from_bytes length_bytes) = (request_data, s2) \<and>
          request_data \<noteq> [])"

section \<open>Listings\<close>

text \<open>What an entry of a listing says about the storage directory it was made from.\<close>

definition describes_regular_file :: "pylib \<Rightarrow> filesystem \<Rightarrow> file_info \<Rightarrow> bool" where
  "describes_regular_file L fs i \<longleftrightarrow>
     exists i \<and>
     (case lookup fs (name i) of
        Some (RegularFile c t) \<Rightarrow> fsize i = Some (length c) \<and> modified i = Some (strftime L t)
      | _ \<Rightarrow> False)"

section \<open>The optional fields of a response\<close>

text \<open>
  \<open>populated_fields r\<close> tells which of the optional fields \<open>message\<close>, \<open>size\<close> and \<open>files\<close> of
  a response are populated, in this order, and \<open>populated r\<close> how many are.
  \<open>expected_fields command st\<close> is the pattern that the dispatcher produces for a
  command and a status.
\<close>

definition populated_fields :: "response \<Rightarrow> bool \<times> bool \<times> bool" where
  "populated_fields r = (message r \<noteq> None, rsize r \<noteq> None, files r \<noteq> None)"

definition populated :: "response \<Rightarrow> nat" where
  "populated r =
     (if message r \<noteq> None then 1 else 0) + (if rsize r \<noteq> None then 1 else 0) +
     (if files r \<noteq> None then 1 else 0)"

definition expected_fields :: "pyval \<Rightarrow> status \<Rightarrow> bool \<times> bool \<times> bool" where
  "expected_fields command st =
     (if st = Error then (True, False, False)
      else if command = PStr ''LIST'' then (False, False, True)
      else if command = PStr ''DOWNLOAD'' then (False, True, False)
      else if command = PStr ''UPLOAD'' then (True, True, False)
      else (True, False, False))"

section \<open>Framing\<close>

subsection \<open>Big-endian lengths\<close>

lemma length_to_bytes_be [simp]: "length (to_bytes_be n v) = n"
  by (induction n arbitrary: v) auto

lemma int_from_bytes_snoc: "int_from_bytes (bs @ [b]) = int_from_bytes bs * 256 + unat b"
  by (simp add: int_from_bytes_def)

lemma int_from_to_bytes_be: "v < 256 ^ n \<Longrightarrow> int_from_bytes (to_bytes_be n v) = v"
proof (induction n arbitrary: v)
  case 0
  then show ?case by (simp add: int_from_bytes_def)
next
  case (Suc n)
  from Suc.prems have "v div 256 < 256 ^ n"
    by (simp add: less_mult_imp_div_less mult.commute)
  then have "int_from_bytes (to_bytes_be n (v div 256)) = v div 256" by (rule Suc.IH)
  moreover have "unat (of_nat (v mod 256) :: byte) = v mod 256"
    by (simp add: unat_of_nat)
  ultimately show ?case by (simp add: int_from_bytes_snoc)
qed

text \<open>Rules that compute \<open>to_bytes_be\<close> at a numeral width.\<close>

lemma to_bytes_be_numeral:
  "to_bytes_be (numeral k) v = to_bytes_be (pred_numeral k) (v div 256) @ [of_nat (v mod 256)]"
proof -
  have "to_bytes_be (Suc (pred_numeral k)) v =
          to_bytes_be (pred_numeral k) (v div 256) @ [of_nat (v mod 256)]"
    by (rule to_bytes_be.simps(2))
  then show ?thesis by (simp only: numeral_eq_Suc [symmetric])
qed

lemma to_bytes_be_one: "to_bytes_be 1 v = [of_nat (v mod 256)]"
  by simp

lemmas to_bytes_eval = to_bytes_be_numeral to_bytes_be_one

subsection \<open>What the sending functions write\<close>

lemma outbound_send [simp]: "outbound (send s bs) = outbound s @ bs"
  by (simp add: send_def)

lemma outbound_send_chunks:
  "outbound (send_chunks i s file_data) = outbound s @ drop i file_data"
proof (induction i s file_data rule: send_chunks.induct)
  case (1 i s file_data)
  show ?case
  proof (cases "i < length file_data")
    case True
    have "take chunk_size (drop i file_data) @ drop (i + chunk_size) file_data = drop i file_data"
      by (metis add.commute append_take_drop_id drop_drop)
    with True "1.IH" show ?thesis by (subst send_chunks.simps) simp
  next
    case False
    then show ?thesis by (subst send_chunks.simps) simp
  qed
qed

lemma is_frame_to_bytes:
  "length payload < 256 ^ k \<Longrightarrow> is_frame k payload (to_bytes_be k (length payload) @ payload)"
  by (simp add: is_frame_def int_from_to_bytes_be)

lemma written_append: "outbound s' = outbound s @ bs \<Longrightarrow> written s s' = bs"
  by (simp add: written_def)

lemma outbound_send_response:
  "outbound (send_response L s r) =
     outbound s @
     (if length (json_dumps L r) < 2 ^ 32
      then to_bytes_be 4 (length (json_dumps L r)) @ json_dumps L r else [])"
  by (simp add: send_response_def int_to_bytes_def Let_def)

lemma outbound_send_file_data:
  "outbound (send_file_data s file_data) =
     outbound s @
     (if length file_data < 2 ^ 64 then to_bytes_be 8 (length file_data) @ file_data else [])"
  by (simp add: send_file_data_def int_to_bytes_def Let_def outbound_send_chunks)

lemma outbound_send_response_frame:
  "outbound (send_response L s r) = outbound s @ control_frame L r"
  by (simp add: outbound_send_response control_frame_def)

lemma outbound_send_file_data_frame:
  "outbound (send_file_data s file_data) = outbound s @ payload_frame file_data"
  by (simp add: outbound_send_file_data payload_frame_def)

lemma send_response_frame:
  assumes "length (json_dumps L r) < 2 ^ 32"
  shows "outbound (send_response L s r) = outbound s @ written s (send_response L s r)"
    and "is_frame 4 (json_dumps L r) (written s (send_response L s r))"
proof -
  from assms have
    o: "outbound (send_response L s r) =
          outbound s @ to_bytes_be 4 (length (json_dumps L r)) @ json_dumps L r"
    by (simp add: outbound_send_response)
  from o have w: "written s (send_response L s r) =
      to_bytes_be 4 (length (json_dumps L r)) @ json_dumps L r"
    by (rule written_append)
  from o w show "outbound (send_response L s r) = outbound s @ written s (send_response L s r)"
    by simp
  from assms have "is_frame 4 (json_dumps L r)
      (to_bytes_be 4 (length (json_dumps L r)) @ json_dumps L r)"
    by (intro is_frame_to_bytes) simp
  with w show "is_frame 4 (json_dumps L r) (written s (send_response L s r))" by simp
qed

lemma send_file_data_frame:
  assumes "length file_data < 2 ^ 64"
  shows "outbound (send_file_data s file_data) =
           outbound s @ written s (send_file_data s file_data)"
    and "is_frame 8 file_data (written s (send_file_data s file_data))"
proof -
  from assms have
    o: "outbound (send_file_data s file_data) =
          outbound s @ to_bytes_be 8 (length file_data) @ file_data"
    by (simp add: outbound_send_file_data)
  from o have w: "written s (send_file_data s file_data) =
      to_bytes_be 8 (length file_data) @ file_data"
    by (rule written_append)
  from o w show "outbound (send_file_data s file_data) =
      outbound s @ written s (send_file_data s file_data)"
    by simp
  from assms have "is_frame 8 file_data (to_bytes_be 8 (length file_data) @ file_data)"
    by (intro is_frame_to_bytes) simp
  with w show "is_frame 8 file_data (written s (send_file_data s file_data))" by simp
qed

text \<open>
  Claim C6. Every control frame that the server (\<open>send_response\<close>) or the client
  (\<open>send_request\<close>) writes is a 4-byte big-endian unsigned length \<open>L\<close> followed by
  exactly the \<open>L\<close> bytes of the encoded map, and every raw payload frame that the server
  (\<open>send_file_data\<close>) or the client (\<open>client_send_file_data\<close>) writes is an 8-byte
  big-endian unsigned length \<open>N\<close> followed by exactly the \<open>N\<close> content bytes, whatever
  their number and so whatever the number of 4096-byte slices. The bytes are appended to
  what was sent before. A length that does not fit its prefix is never sent truncated:
  then nothing at all is written.
\<close>

theorem C6_frames_are_length_prefixed:
  "(if length (json_dumps L r) < 2 ^ 32
    then outbound (send_response L s r) = outbound s @ written s (send_response L s r) \<and>
         is_frame 4 (json_dumps L r) (written s (send_response L s r))
    else send_response L s r = s) \<and>
   (if length file_data < 2 ^ 64
    then outbound (send_file_data s file_data) =
           outbound s @ written s (send_file_data s file_data) \<and>
         is_frame 8 file_data (written s (send_file_data s file_data))
    else send_file_data s file_data = s) \<and>
   (if length (dumps rq) < 2 ^ 32
    then \<exists>s'. send_request dumps s rq = Some s' \<and> outbound s' = outbound s @ written s s' \<and>
           is_frame 4 (dumps rq) (written s s')
    else send_request dumps s rq = None) \<and>
   (if length file_data < 2 ^ 64
    then \<exists>s'. client_send_file_data s file_data = (True, s') \<and>
           outbound s' = outbound s @ written s s' \<and> is_frame 8 file_data (written s s')
    else client_send_file_data s file_data = (False, s))"
proof (intro conjI)
  show "if length (json_dumps L r) < 2 ^ 32
    then outbound (send_response L s r) = outbound s @ written s (send_response L s r) \<and>
         is_frame 4 (json_dumps L r) (written s (send_response L s r))
    else send_response L s r = s"
  proof (cases "length (json_dumps L r) < 2 ^ 32")
    case True
    from send_response_frame [OF True] True show ?thesis by (simp only: if_True simp_thms)
  next
    case False
    then show ?thesis by (simp add: send_response_def int_to_bytes_def Let_def)
  qed
  show "if length file_data < 2 ^ 64
    then outbound (send_file_data s file_data) =
           outbound s @ written s (send_file_data s file_data) \<and>
         is_frame 8 file_data (written s (send_file_data s file_data))
    else send_file_data s file_data = s"
  proof (cases "length file_data < 2 ^ 64")
    case True
    from send_file_data_frame [OF True] True show ?thesis by (simp only: if_True simp_thms)
  next
    case False
    then show ?thesis by (simp add: send_file_data_def int_to_bytes_def Let_def)
  qed
  show "if length (dumps rq) < 2 ^ 32
    then \<exists>s'. send_request dumps s rq = Some s' \<and> outbound s' = outbound s @ written s s' \<and>
           is_frame 4 (dumps rq) (written s s')
    else send_request dumps s rq = None"
  proof (cases "length (dumps rq) < 2 ^ 32")
    case True
    let ?s' = "send (send s (to_bytes_be 4 (length (dumps rq)))) (dumps rq)"
    have o: "outbound ?s' = outbound s @ to_bytes_be 4 (length (dumps rq)) @ dumps rq" by simp
    from o have w: "written s ?s' = to_bytes_be 4 (length (dumps rq)) @ dumps rq"
      by (rule written_append)
    from True have "is_frame 4 (dumps rq) (to_bytes_be 4 (length (dumps rq)) @ dumps rq)"
      by (intro is_frame_to_bytes) simp
    with True o w show ?thesis
      by (simp add: send_request_def int_to_bytes_def Let_def)
  next
    case False
    then show ?thesis by (simp add: send_request_def int_to_bytes_def Let_def)
  qed
  show "if length file_data < 2 ^ 64
    then \<exists>s'. client_send_file_data s file_data = (True, s') \<and>
           outbound s' = outbound s @ written s s' \<and> is_frame 8 file_data (written s s')
    else client_send_file_data s file_data = (False, s)"
  proof (cases "length file_data < 2 ^ 64")
    case True
    let ?s' = "send_chunks 0 (send s (to_bytes_be 8 (length file_data))) file_data"
    have o: "outbound ?s' = outbound s @ to_bytes_be 8 (length file_data) @ file_data"
      by (simp add: outbound_send_chunks)
    from o have w: "written s ?s' = to_bytes_be 8 (length file_data) @ file_data"
      by (rule written_append)
    from True have "is_frame 8 file_data (to_bytes_be 8 (length file_data) @ file_data)"
      by (intro is_frame_to_bytes) simp
    with True o w show ?thesis
      by (simp add: client_send_file_data_def int_to_bytes_def Let_def)
  next
    case False
    then show ?thesis by (simp add: client_send_file_data_def int_to_bytes_def Let_def)
  qed
qed

theorem C6_frames_witness:
  "written (sock_of []) (send_response example_lib (sock_of []) (error_response ''bad'')) =
     [0, 0, 0, 37] @ encode_ascii (dumps_response (error_response ''bad'')) \<and>
   is_frame 4 (json_dumps example_lib (error_response ''bad''))
     (written (sock_of []) (send_response example_lib (sock_of []) (error_response ''bad''))) \<and>
   written (sock_of []) (send_file_data (sock_of []) (encode_ascii ''hi'')) =
     [0, 0, 0, 0, 0, 0, 0, 2, 104, 105] \<and>
   is_frame 8 (encode_ascii ''hi'')
     (written (sock_of []) (send_file_data (sock_of []) (encode_ascii ''hi'')))"
proof -
  let ?r = "error_response ''bad''"
  have len: "length (json_dumps example_lib ?r) = 37"
    by (simp add: example_lib_def encode_ascii_def dumps_response_def error_response_def
        json_string_def json_escape_def)
  then have lt1: "length (json_dumps example_lib ?r) < 2 ^ 32" by simp
  have lt2: "length (encode_ascii ''hi'') < 2 ^ 64" by (simp add: encode_ascii_def)
  have d: "json_dumps example_lib ?r = encode_ascii (dumps_response ?r)"
    by (simp add: example_lib_def)
  have "outbound (send_response example_lib (sock_of []) ?r) =
      outbound (sock_of []) @ [0, 0, 0, 37] @ encode_ascii (dumps_response ?r)"
    by (simp add: outbound_send_response len to_bytes_eval) (simp add: d)
  then have w1: "written (sock_of []) (send_response example_lib (sock_of []) ?r) =
      [0, 0, 0, 37] @ encode_ascii (dumps_response ?r)"
    by (rule written_append)
  have "outbound (send_file_data (sock_of []) (encode_ascii ''hi'')) =
      outbound (sock_of []) @ [0, 0, 0, 0, 0, 0, 0, 2, 104, 105]"
    by (simp add: outbound_send_file_data encode_ascii_def to_bytes_eval)
  then have w2: "written (sock_of []) (send_file_data (sock_of []) (encode_ascii ''hi'')) =
      [0, 0, 0, 0, 0, 0, 0, 2, 104, 105]"
    by (rule written_append)
  note c = C6_frames_are_length_prefixed
    [where L = example_lib and r = ?r and s = "sock_of []"
       and file_data = "encode_ascii ''hi''" and dumps = "\<lambda>rq. []"
       and rq = "\<lparr>rq_command = ''LIST'', rq_filename = None\<rparr>"]
  from c [THEN conjunct1] lt1 have f1: "is_frame 4 (json_dumps example_lib ?r)
      (written (sock_of []) (send_response example_lib (sock_of []) ?r))"
    by (simp only: if_True)
  from c [THEN conjunct2, THEN conjunct1] lt2 have f2: "is_frame 8 (encode_ascii ''hi'')
      (written (sock_of []) (send_file_data (sock_of []) (encode_ascii ''hi'')))"
    by (simp only: if_True)
  from w1 f1 w2 f2 show ?thesis by (intro conjI)
qed

section \<open>The dispatcher\<close>

subsection \<open>One turn of the loop\<close>

lemma step_reads_frame:
  assumes "reads_frame s request_data s2"
  shows "step L (s, fs) =
     (case json_loads L request_data of
        Raises_JSONDecodeError \<Rightarrow>
          (Continue, send_response L s2 (error_response ''Invalid request format''), fs)
      | Raises_other \<Rightarrow> (Break, s2, fs)
      | Loaded_non_dict \<Rightarrow> (Break, s2, fs)
      | Loaded_dict request \<Rightarrow> handle_request L request (s2, fs))"
proof -
  obtain length_bytes s1 where r1: "recv s 4 = (length_bytes, s1)" by (cases "recv s 4")
  with assms have "length_bytes \<noteq> []"
    and "recv s1 (int_from_bytes length_bytes) = (request_data, s2)"
    and "request_data \<noteq> []"
    by (simp_all add: reads_frame_def)
  with r1 show ?thesis by (simp add: step_def Let_def)
qed

lemma step_request:
  "reads_frame s request_data s2 \<Longrightarrow> json_loads L request_data = Loaded_dict request \<Longrightarrow>
     step L (s, fs) = handle_request L request (s2, fs)"
  by (simp add: step_reads_frame)

lemma handle_client_loop_Continue:
  "step L w = (Continue, w') \<Longrightarrow> handle_client_loop L w = handle_client_loop L w'"
  by (subst handle_client_loop.simps) simp

lemma handle_client_loop_Break:
  "step L w = (Break, w') \<Longrightarrow> handle_client_loop L w = w'"
  by (subst handle_client_loop.simps) simp

lemma closed_handle_client: "closed (fst (handle_client L w))"
  by (simp add: handle_client_def close_def split: prod.splits)

subsection \<open>Frames that arrive in one piece\<close>

lemma recv_chunks_head:
  "c \<noteq> [] \<Longrightarrow> recv_chunks n (c # cs) = (take n c, if n < length c then drop n c # cs else cs)"
  by simp

lemma reads_frame_whole:
  assumes "payload \<noteq> []" and "length payload < 2 ^ 32"
  shows "reads_frame (s\<lparr>inbound := (to_bytes_be 4 (length payload) @ payload) # rest\<rparr>)
           payload (s\<lparr>inbound := rest\<rparr>)"
proof -
  let ?hdr = "to_bytes_be 4 (length payload)"
  from assms(2) have v: "int_from_bytes ?hdr = length payload"
    by (intro int_from_to_bytes_be) simp
  from assms(1) have
    r1: "recv (s\<lparr>inbound := (?hdr @ payload) # rest\<rparr>) 4 = (?hdr, s\<lparr>inbound := payload # rest\<rparr>)"
    by (cases payload) (simp_all add: recv_def)
  from assms(1) have
    r2: "recv (s\<lparr>inbound := payload # rest\<rparr>) (length payload) = (payload, s\<lparr>inbound := rest\<rparr>)"
    by (simp add: recv_def)
  have "?hdr \<noteq> []" by (metis length_to_bytes_be list.size(3) zero_neq_numeral)
  with r1 r2 v assms(1) show ?thesis by (simp add: reads_frame_def)
qed

lemma reads_control_frame_of:
  assumes "t \<noteq> []" and "length t < 2 ^ 32"
  shows "reads_frame (sock_of (control_frame_of t # rest)) (encode_ascii t) (sock_of rest)"
proof -
  from assms have "reads_frame
      (\<lparr>inbound = [], outbound = [], closed = False\<rparr>
         \<lparr>inbound := (to_bytes_be 4 (length (encode_ascii t)) @ encode_ascii t) # rest\<rparr>)
      (encode_ascii t)
      (\<lparr>inbound = [], outbound = [], closed = False\<rparr>\<lparr>inbound := rest\<rparr>)"
    by (intro reads_frame_whole) (simp_all add: encode_ascii_def)
  then show ?thesis by (simp add: sock_of_def control_frame_of_def encode_ascii_def)
qed

lemma outbound_recv: "recv s n = (chunk, s') \<Longrightarrow> outbound s' = outbound s"
  by (auto simp: recv_def split: prod.splits)

lemma reads_frame_outbound:
  assumes "reads_frame s request_data s2"
  shows "outbound s2 = outbound s"
proof -
  obtain length_bytes s1 where r1: "recv s 4 = (length_bytes, s1)" by (cases "recv s 4")
  with assms have r2: "recv s1 (int_from_bytes length_bytes) = (request_data, s2)"
    by (simp add: reads_frame_def)
  from outbound_recv [OF r1] outbound_recv [OF r2] show ?thesis by simp
qed

text \<open>A turn that answers with one response writes the control frame of that response.\<close>

lemma answer_written:
  assumes "reads_frame s request_data s2"
  shows "outbound (send_response L s2 r) = outbound s @ control_frame L r"
  using reads_frame_outbound [OF assms] by (simp add: outbound_send_response_frame)

text \<open>The control frames of the examples, computed.\<close>

lemma control_frame_example:
  assumes "length (dumps_response r) = n" and "n < 2 ^ 32"
  shows "control_frame example_lib r = to_bytes_be 4 n @ encode_ascii (dumps_response r)"
  using assms by (simp add: control_frame_def example_lib_def encode_ascii_def)

subsection \<open>Requests the dispatcher turns down\<close>

text \<open>
  An unknown command that standard output can print is answered: the control frame of
  the error response \<open>Unknown command: <cmd>\<close> is written, with the command as it was
  received (the empty string when the dictionary has no \<open>command\<close>); the storage
  directory is left as it was, nothing more is read from the stream, and the loop goes
  on with the next request. The comparison is exact, so \<open>list\<close> is not \<open>LIST\<close>.
\<close>

lemma unknown_command_answered:
  assumes "reads_frame s request_data s2"
    and "json_loads L request_data = Loaded_dict request"
    and "\<not> known_command (dict_get request ''command'' (PStr []))"
    and "can_print L (py_str (dict_get request ''command'' (PStr [])))"
  shows "let command = dict_get request ''command'' (PStr []);
             r = error_response (''Unknown command: '' @ py_str command);
             s' = send_response L s2 r
         in step L (s, fs) = (Continue, s', fs) \<and>
            inbound s' = inbound s2 \<and>
            outbound s' = outbound s @ control_frame L r \<and>
            handle_client_loop L (s, fs) = handle_client_loop L (s', fs) \<and>
            (request ''command'' = None \<longrightarrow> py_str command = []) \<and>
            (\<forall>c. request ''command'' = Some (PStr c) \<longrightarrow> py_str command = c)"
proof -
  let ?command = "dict_get request ''command'' (PStr [])"
  let ?r = "error_response (''Unknown command: '' @ py_str ?command)"
  let ?s' = "send_response L s2 ?r"
  from assms have st: "step L (s, fs) = (Continue, ?s', fs)"
    by (simp add: step_request handle_request_unknown)
  then have "handle_client_loop L (s, fs) = handle_client_loop L (?s', fs)"
    by (rule handle_client_loop_Continue)
  moreover have "request ''command'' = None \<longrightarrow> py_str ?command = []"
    by (simp add: dict_get_def)
  moreover have "\<forall>c. request ''command'' = Some (PStr c) \<longrightarrow> py_str ?command = c"
    by (simp add: dict_get_def)
  ultimately show ?thesis using st answer_written [OF assms(1), of L ?r]
    by (simp add: Let_def)
qed

lemma unknown_command_example:
  \<open>step example_lib
     (sock_of [control_frame_of ''{"command": "list"}'', control_frame_of ''{"command": "LIST"}''],
      fs_example) =
     (Continue,
      send_response example_lib (sock_of [control_frame_of ''{"command": "LIST"}''])
        (error_response ''Unknown command: list''),
      fs_example) \<and>
   outbound (send_response example_lib (sock_of [control_frame_of ''{"command": "LIST"}''])
        (error_response ''Unknown command: list'')) =
     [0, 0, 0, 55] @ encode_ascii (dumps_response (error_response ''Unknown command: list''))\<close>
proof -
  let ?s = \<open>sock_of [control_frame_of ''{"command": "list"}'',
    control_frame_of ''{"command": "LIST"}'']\<close>
  have rf: \<open>reads_frame ?s (encode_ascii ''{"command": "list"}'')
      (sock_of [control_frame_of ''{"command": "LIST"}''])\<close>
    by (rule reads_control_frame_of) simp_all
  have ld: \<open>json_loads example_lib (encode_ascii ''{"command": "list"}'') =
      Loaded_dict [''command'' \<mapsto> PStr ''list'']\<close>
    by (simp add: example_lib_def example_loads_def example_requests_def encode_ascii_def)
  have nk: "\<not> known_command (dict_get [''command'' \<mapsto> PStr ''list''] ''command'' (PStr []))"
    by (simp add: known_command_def dict_get_def)
  have cp: "can_print example_lib
      (py_str (dict_get [''command'' \<mapsto> PStr ''list''] ''command'' (PStr [])))"
    by (simp add: can_print_def dict_get_def)
  have o: "outbound ?s = []" by (simp add: sock_of_def)
  have len: "length (dumps_response (error_response ''Unknown command: list'')) = 55"
    by (simp add: dumps_response_def error_response_def json_string_def json_escape_def)
  have cf: "control_frame example_lib (error_response ''Unknown command: list'') =
      [0, 0, 0, 55] @ encode_ascii (dumps_response (error_response ''Unknown command: list''))"
    by (subst control_frame_example [OF len]) (simp_all add: to_bytes_eval)
  from unknown_command_answered [OF rf ld nk cp, of fs_example] o cf
  show ?thesis by (simp add: Let_def dict_get_def)
qed

text \<open>
  Claim C7, at the input where the code departs from it. The command of this request
  is the one character \<open>U+00E9\<close>, which the ASCII standard output of the example cannot
  encode (under UTF-8 a lone surrogate such as \<open>U+D800\<close> does the same). The \<open>print\<close>
  of the command raises inside the \<open>try\<close>, the handler for \<open>json.JSONDecodeError\<close>
  does not catch it, and the loop is left: no response is written, not even
  \<open>Unknown command\<close>, the request that follows is never read, and the connection is
  closed.
\<close>

theorem C7_unencodable_command_ends_the_loop:
  \<open>json_loads example_lib (encode_ascii (''{"command": "'' @ [CHR 0x5C] @ ''u00e9"}'')) =
     Loaded_dict [''command'' \<mapsto> PStr [CHR 0xE9]] \<and>
   \<not> known_command (PStr [CHR 0xE9]) \<and>
   step example_lib
     (sock_of [control_frame_of (''{"command": "'' @ [CHR 0x5C] @ ''u00e9"}''),
               control_frame_of ''{"command": "LIST"}''],
      fs_example) =
     (Break, sock_of [control_frame_of ''{"command": "LIST"}''], fs_example) \<and>
   handle_client example_lib
     (sock_of [control_frame_of (''{"command": "'' @ [CHR 0x5C] @ ''u00e9"}''),
               control_frame_of ''{"command": "LIST"}''],
      fs_example) =
     (close (sock_of [control_frame_of ''{"command": "LIST"}'']), fs_example) \<and>
   outbound (close (sock_of [control_frame_of ''{"command": "LIST"}''])) = []\<close>
proof -
  let ?t = \<open>''{"command": "'' @ [CHR 0x5C] @ ''u00e9"}''\<close>
  let ?s = \<open>sock_of [control_frame_of ?t, control_frame_of ''{"command": "LIST"}'']\<close>
  let ?s2 = \<open>sock_of [control_frame_of ''{"command": "LIST"}'']\<close>
  have rf: "reads_frame ?s (encode_ascii ?t) ?s2"
    by (rule reads_control_frame_of) simp_all
  have ld: "json_loads example_lib (encode_ascii ?t) =
      Loaded_dict [''command'' \<mapsto> PStr [CHR 0xE9]]"
    by (simp add: example_lib_def example_loads_def example_requests_def encode_ascii_def)
  have np: "\<not> can_print example_lib
      (py_str (dict_get [''command'' \<mapsto> PStr [CHR 0xE9]] ''command'' (PStr [])))"
    by (simp add: can_print_def dict_get_def example_lib_def)
  from rf ld np have st: "step example_lib (?s, fs_example) = (Break, ?s2, fs_example)"
    by (simp add: step_request handle_request_unprintable)
  from handle_client_loop_Break [OF st]
  have hc: "handle_client example_lib (?s, fs_example) = (close ?s2, fs_example)"
    by (simp add: handle_client_def)
  have nk: "\<not> known_command (PStr [CHR 0xE9])" by (simp add: known_command_def)
  have o: "outbound (close ?s2) = []" by (simp add: close_def sock_of_def)
  from ld nk st hc o show ?thesis by (intro conjI)
qed

text \<open>
  Claim C8. An \<open>UPLOAD\<close>, \<open>DOWNLOAD\<close> or \<open>DELETE\<close> request whose \<open>filename\<close> is
  absent or empty (or any other value that Python takes for false) is answered with the
  error response \<open>Filename not provided\<close>: the bytes written in that turn are the
  control frame of this response. Nothing is read from the stream beyond the control
  frame of the request, so no raw payload frame is consumed, and the storage directory
  is left as it was.
\<close>

theorem C8_missing_filename:
  assumes "reads_frame s request_data s2"
    and "json_loads L request_data = Loaded_dict request"
    and "dict_get request ''command'' (PStr []) \<in>
           {PStr ''UPLOAD'', PStr ''DOWNLOAD'', PStr ''DELETE''}"
    and "request ''filename'' = None \<or> (\<exists>v. request ''filename'' = Some v \<and> \<not> truthy v)"
  shows "let s' = send_response L s2 (error_response ''Filename not provided'')
         in step L (s, fs) = (Continue, s', fs) \<and> inbound s' = inbound s2 \<and>
            outbound s' =
              outbound s @ control_frame L (error_response ''Filename not provided'')"
proof -
  from assms(4) have nt: "\<not> truthy (dict_get request ''filename'' (PStr []))"
    by (auto simp: dict_get_def)
  from assms(3) consider "dict_get request ''command'' (PStr []) = PStr ''UPLOAD''"
    | "dict_get request ''command'' (PStr []) = PStr ''DOWNLOAD''"
    | "dict_get request ''command'' (PStr []) = PStr ''DELETE''"
    by blast
  then have "handle_request L request (s2, fs) =
      (Continue, send_response L s2 (error_response ''Filename not provided''), fs)"
  proof cases
    case 1
    with nt show ?thesis by (simp add: handle_request_UPLOAD)
  next
    case 2
    with nt show ?thesis by (simp add: handle_request_DOWNLOAD)
  next
    case 3
    with nt show ?thesis by (simp add: handle_request_DELETE)
  qed
  with assms(1,2) answer_written [OF assms(1), of L "error_response ''Filename not provided''"]
  show ?thesis by (simp add: step_request Let_def)
qed

theorem C8_missing_filename_witness:
  \<open>step example_lib
     (sock_of [control_frame_of ''{"command": "UPLOAD"}'', [0, 0, 0, 0, 0, 0, 0, 1, 65]],
      fs_example) =
     (Continue,
      send_response example_lib (sock_of [[0, 0, 0, 0, 0, 0, 0, 1, 65]])
        (error_response ''Filename not provided''),
      fs_example) \<and>
   inbound (send_response example_lib (sock_of [[0, 0, 0, 0, 0, 0, 0, 1, 65]])
        (error_response ''Filename not provided'')) = [[0, 0, 0, 0, 0, 0, 0, 1, 65]] \<and>
   outbound (send_response example_lib (sock_of [[0, 0, 0, 0, 0, 0, 0, 1, 65]])
        (error_response ''Filename not provided'')) =
     [0, 0, 0, 55] @ encode_ascii (dumps_response (error_response ''Filename not provided''))\<close>
proof -
  let ?s = \<open>sock_of [control_frame_of ''{"command": "UPLOAD"}'', [0, 0, 0, 0, 0, 0, 0, 1, 65]]\<close>
  have rf: \<open>reads_frame ?s (encode_ascii ''{"command": "UPLOAD"}'')
      (sock_of [[0, 0, 0, 0, 0, 0, 0, 1, 65]])\<close>
    by (rule reads_control_frame_of) simp_all
  have ld: \<open>json_loads example_lib (encode_ascii ''{"command": "UPLOAD"}'') =
      Loaded_dict [''command'' \<mapsto> PStr ''UPLOAD'']\<close>
    by (simp add: example_lib_def example_loads_def example_requests_def encode_ascii_def)
  have cmd: "dict_get [''command'' \<mapsto> PStr ''UPLOAD''] ''command'' (PStr []) \<in>
      {PStr ''UPLOAD'', PStr ''DOWNLOAD'', PStr ''DELETE''}"
    by (simp add: dict_get_def)
  have nf: "[''command'' \<mapsto> PStr ''UPLOAD''] ''filename'' = None \<or>
      (\<exists>v. [''command'' \<mapsto> PStr ''UPLOAD''] ''filename'' = Some v \<and> \<not> truthy v)"
    by simp
  have o: "outbound ?s = []" by (simp add: sock_of_def)
  have len: "length (dumps_response (error_response ''Filename not provided'')) = 55"
    by (simp add: dumps_response_def error_response_def json_string_def json_escape_def)
  have cf: "control_frame example_lib (error_response ''Filename not provided'') =
      [0, 0, 0, 55] @ encode_ascii (dumps_response (error_response ''Filename not provided''))"
    by (subst control_frame_example [OF len]) (simp_all add: to_bytes_eval)
  from C8_missing_filename [OF rf ld cmd nf, of fs_example] o cf
  show ?thesis by (simp add: Let_def sock_of_def)
qed

text \<open>
  Claim C9. A \<open>DELETE\<close> request that names a file which does not exist in the storage
  directory is answered with the error response \<open>File <name> not found\<close>: the bytes
  written in that turn are the control frame of this response. The storage directory is
  left as it was, and the turn ends as every answered request does: the loop goes on
  with the next request on the same connection.
\<close>

theorem C9_delete_absent_file:
  assumes "reads_frame s request_data s2"
    and "json_loads L request_data = Loaded_dict request"
    and "dict_get request ''command'' (PStr []) = PStr ''DELETE''"
    and "request ''filename'' = Some (PStr fn)"
    and "fn \<noteq> []"
    and "\<not> os_path_exists fs fn"
  shows "let r = error_response (''File '' @ fn @ '' not found'');
             s' = send_response L s2 r
         in delete_file L fs (PStr fn) = (r, fs) \<and>
            step L (s, fs) = (Continue, s', fs) \<and>
            outbound s' = outbound s @ control_frame L r \<and>
            handle_client_loop L (s, fs) = handle_client_loop L (s', fs)"
proof -
  let ?r = "error_response (''File '' @ fn @ '' not found'')"
  from assms(6) have d: "delete_file L fs (PStr fn) = (?r, fs)"
    by (simp add: delete_file_def)
  from assms(4,5) have f: "dict_get request ''filename'' (PStr []) = PStr fn"
    by (simp add: dict_get_def)
  from assms(3,5) f d have "handle_request L request (s2, fs) =
      (Continue, send_response L s2 ?r, fs)"
    by (simp add: handle_request_DELETE)
  with assms(1,2) have st: "step L (s, fs) = (Continue, send_response L s2 ?r, fs)"
    by (simp add: step_request)
  from handle_client_loop_Continue [OF st] st d answer_written [OF assms(1), of L ?r]
  show ?thesis by (simp add: Let_def)
qed

theorem C9_delete_absent_file_witness:
  \<open>\<not> os_path_exists fs_empty ''a.txt'' \<and>
   step example_lib
     (sock_of [control_frame_of ''{"command": "DELETE", "filename": "a.txt"}''], fs_empty) =
     (Continue,
      send_response example_lib (sock_of []) (error_response ''File a.txt not found''),
      fs_empty) \<and>
   outbound (send_response example_lib (sock_of []) (error_response ''File a.txt not found'')) =
     [0, 0, 0, 54] @ encode_ascii (dumps_response (error_response ''File a.txt not found''))\<close>
proof -
  let ?s = \<open>sock_of [control_frame_of ''{"command": "DELETE", "filename": "a.txt"}'']\<close>
  have rf: \<open>reads_frame ?s
      (encode_ascii ''{"command": "DELETE", "filename": "a.txt"}'') (sock_of [])\<close>
    by (rule reads_control_frame_of) simp_all
  have ld: \<open>json_loads example_lib (encode_ascii ''{"command": "DELETE", "filename": "a.txt"}'') =
      Loaded_dict [''command'' \<mapsto> PStr ''DELETE'', ''filename'' \<mapsto> PStr ''a.txt'']\<close>
    by (simp add: example_lib_def example_loads_def example_requests_def encode_ascii_def)
  have cmd: "dict_get [''command'' \<mapsto> PStr ''DELETE'', ''filename'' \<mapsto> PStr ''a.txt'']
      ''command'' (PStr []) = PStr ''DELETE''"
    by (simp add: dict_get_def)
  have fnm: "[''command'' \<mapsto> PStr ''DELETE'', ''filename'' \<mapsto> PStr ''a.txt''] ''filename'' =
      Some (PStr ''a.txt'')"
    by simp
  have ne: "''a.txt'' \<noteq> []" by simp
  have ab: "\<not> os_path_exists fs_empty ''a.txt''"
    by (simp add: os_path_exists_def lookup_def resolve_def flat_name_def object_at_def
        fs_empty_def)
  have o: "outbound ?s = []" by (simp add: sock_of_def)
  have len: "length (dumps_response (error_response ''File a.txt not found'')) = 54"
    by (simp add: dumps_response_def error_response_def json_string_def json_escape_def)
  have cf: "control_frame example_lib (error_response ''File a.txt not found'') =
      [0, 0, 0, 54] @ encode_ascii (dumps_response (error_response ''File a.txt not found''))"
    by (subst control_frame_example [OF len]) (simp_all add: to_bytes_eval)
  from C9_delete_absent_file [OF rf ld cmd fnm ne ab] o cf
  show ?thesis using ab by (simp add: Let_def)
qed


section \<open>The file store\<close>

subsection \<open>Writing a file\<close>









subsection \<open>Storing and reading back\<close>





subsection \<open>Listing\<close>

lemma get_file_info_regular:
  assumes "os_path_isfile fs filename"
  shows "\<exists>c t. lookup fs filename = Some (RegularFile c t) \<and>
           get_file_info L fs filename =
             Inr \<lparr>name = filename, fsize = Some (length c),
                  modified = Some (strftime L t), exists = True\<rparr>"
proof -
  from assms obtain c t where l: "lookup fs filename = Some (RegularFile c t)"
    by (auto simp: os_path_isfile_def split: option.splits node.splits)
  then have "get_file_info L fs filename =
      Inr \<lparr>name = filename, fsize = Some (length c),
           modified = Some (strftime L t), exists = True\<rparr>"
    by (simp add: get_file_info_def os_path_exists_def os_stat_def)
  with l show ?thesis by blast
qed

lemma list_files_loop_result:
  "\<exists>fl'. list_files_loop L fs names fl = Inr (fl @ fl') \<and>
          map name fl' = filter (os_path_isfile fs) names \<and>
          (\<forall>i \<in> set fl'. describes_regular_file L fs i)"
proof (induction names arbitrary: fl)
  case Nil
  then show ?case by simp
next
  case (Cons filename rest)
  show ?case
  proof (cases "os_path_isfile fs filename")
    case False
    with Cons.IH [of fl] show ?thesis by simp
  next
    case True
    from get_file_info_regular [OF True, of L] obtain c t
      where l: "lookup fs filename = Some (RegularFile c t)"
        and g: "get_file_info L fs filename =
          Inr \<lparr>name = filename, fsize = Some (length c),
               modified = Some (strftime L t), exists = True\<rparr>"
      by blast
    let ?i = "\<lparr>name = filename, fsize = Some (length c),
               modified = Some (strftime L t), exists = True\<rparr>"
    from Cons.IH [of "fl @ [?i]"] obtain fl'
      where r: "list_files_loop L fs rest (fl @ [?i]) = Inr ((fl @ [?i]) @ fl')"
        and n: "map name fl' = filter (os_path_isfile fs) rest"
        and d: "\<forall>i \<in> set fl'. describes_regular_file L fs i"
      by blast
    from l have "describes_regular_file L fs ?i" by (simp add: describes_regular_file_def)
    with True g r n d have
      "list_files_loop L fs (filename # rest) fl = Inr (fl @ (?i # fl')) \<and>
       map name (?i # fl') = filter (os_path_isfile fs) (filename # rest) \<and>
       (\<forall>i \<in> set (?i # fl'). describes_regular_file L fs i)"
      by simp
    then show ?thesis by blast
  qed
qed

text \<open>
  Claim C10. A \<open>LIST\<close> request is answered with \<open>list_files\<close> of the storage directory
  and leaves the directory as it was. When the storage directory exists the answer is a
  success whose \<open>files\<close> are, in directory order, exactly the names that are regular
  files (directories are skipped), and every entry carries \<open>exists = True\<close> with the name,
  the size and the modification time stamp of that regular file.
\<close>

theorem C10_list_files:
  assumes "reads_frame s request_data s2"
    and "json_loads L request_data = Loaded_dict request"
    and "dict_get request ''command'' (PStr []) = PStr ''LIST''"
  shows "step L (s, fs) = (Continue, send_response L s2 (list_files L fs), fs) \<and>
         (root_exists fs \<longrightarrow>
            (\<exists>fl. list_files L fs =
                    \<lparr>status = Success, message = None, rsize = None, files = Some fl,
                     data = None\<rparr> \<and>
                  map name fl = filter (os_path_isfile fs) (map fst (entries fs)) \<and>
                  (\<forall>i \<in> set fl. describes_regular_file L fs i))) \<and>
         (\<not> root_exists fs \<longrightarrow> status (list_files L fs) = Error)"
proof -
  from assms have "step L (s, fs) = (Continue, send_response L s2 (list_files L fs), fs)"
    by (simp add: step_request handle_request_LIST)
  moreover from list_files_loop_result [of L fs "map fst (entries fs)" "[]"]
  have "root_exists fs \<longrightarrow>
      (\<exists>fl. list_files L fs =
              \<lparr>status = Success, message = None, rsize = None, files = Some fl, data = None\<rparr> \<and>
            map name fl = filter (os_path_isfile fs) (map fst (entries fs)) \<and>
            (\<forall>i \<in> set fl. describes_regular_file L fs i))"
    by (auto simp: list_files_def os_listdir_def)
  moreover have "\<not> root_exists fs \<longrightarrow> status (list_files L fs) = Error"
    by (simp add: list_files_def os_listdir_def error_response_def)
  ultimately show ?thesis by blast
qed

theorem C10_list_files_witness:
  \<open>step example_lib (sock_of [control_frame_of ''{"command": "LIST"}''], fs_example) =
     (Continue, send_response example_lib (sock_of []) (list_files example_lib fs_example),
      fs_example) \<and>
   list_files example_lib fs_example =
     \<lparr>status = Success, message = None, rsize = None,
      files = Some [\<lparr>name = ''a.txt'', fsize = Some 2,
                     modified = Some ''2024-01-01 00:00:00'', exists = True\<rparr>],
      data = None\<rparr>\<close>
proof -
  have rf: \<open>reads_frame (sock_of [control_frame_of ''{"command": "LIST"}''])
      (encode_ascii ''{"command": "LIST"}'') (sock_of [])\<close>
    by (rule reads_control_frame_of) simp_all
  have ld: \<open>json_loads example_lib (encode_ascii ''{"command": "LIST"}'') =
      Loaded_dict [''command'' \<mapsto> PStr ''LIST'']\<close>
    by (simp add: example_lib_def example_loads_def example_requests_def encode_ascii_def)
  have cmd: "dict_get [''command'' \<mapsto> PStr ''LIST''] ''command'' (PStr []) = PStr ''LIST''"
    by (simp add: dict_get_def)
  have lf: "list_files example_lib fs_example =
     \<lparr>status = Success, message = None, rsize = None,
      files = Some [\<lparr>name = ''a.txt'', fsize = Some 2,
                     modified = Some ''2024-01-01 00:00:00'', exists = True\<rparr>],
      data = None\<rparr>"
    by (simp add: list_files_def os_listdir_def fs_example_def os_path_isfile_def lookup_def
        resolve_def flat_name_def object_at_def get_file_info_def os_path_exists_def os_stat_def
        example_lib_def encode_ascii_def)
  from C10_list_files [OF rf ld cmd, of fs_example] lf
  show ?thesis by simp
qed


subsection \<open>Downloads\<close>

lemma get_file_success:
  assumes "status (get_file L fs filename) = Success"
  shows "\<exists>fn d. filename = PStr fn \<and> read_file fs fn = Inr d \<and>
           get_file L fs filename =
             \<lparr>status = Success, message = None, rsize = Some (length d), files = None,
              data = Some d\<rparr>"
  using assms
  by (cases filename)
    (auto simp: get_file_def error_response_def split: if_splits sum.splits)

lemma get_file_error:
  assumes "status (get_file L fs filename) \<noteq> Success"
  shows "\<exists>m. get_file L fs filename = error_response m"
  using assms
  by (cases filename) (auto simp: get_file_def split: if_splits sum.splits)

lemma dec_digit: "n < 10 \<Longrightarrow> dec n = [char_of (48 + n)]"
  by (subst dec.simps) simp

text \<open>
  Claim C2. A \<open>DOWNLOAD\<close> request is answered with one control response: the result
  of \<open>get_file\<close> for the file name, or \<open>Filename not provided\<close> when the request has
  none. When that result has status success, the bytes written in the turn are the
  control frame of the response \<open>{status: success, size}\<close>, with the size of the
  file, and right after it the raw payload frame of the file's content. When it is an
  error response (file absent, no file name, a file that cannot be read), the bytes
  written are the control frame of that error response and nothing else. So the payload
  frame follows if and only if the control response before it says success.
\<close>

theorem C2_payload_iff_success:
  assumes "reads_frame s request_data s2"
    and "json_loads L request_data = Loaded_dict request"
    and "dict_get request ''command'' (PStr []) = PStr ''DOWNLOAD''"
  shows "\<exists>s'. step L (s, fs) = (Continue, s', fs) \<and>
           (let filename = dict_get request ''filename'' (PStr []);
                result = (if truthy filename then get_file L fs filename
                          else error_response ''Filename not provided'')
            in if status result = Success
               then \<exists>fn d. filename = PStr fn \<and> fn \<noteq> [] \<and> read_file fs fn = Inr d \<and>
                      outbound s' =
                        outbound s @
                        control_frame L
                          \<lparr>status = Success, message = None, rsize = Some (length d),
                           files = None, data = None\<rparr> @
                        payload_frame d
               else (\<exists>m. result = error_response m) \<and>
                    outbound s' = outbound s @ control_frame L result)"
proof -
  let ?filename = "dict_get request ''filename'' (PStr [])"
  from assms have st: "step L (s, fs) = handle_request L request (s2, fs)"
    by (simp add: step_request)
  show ?thesis
  proof (cases "truthy ?filename")
    case False
    let ?r = "error_response ''Filename not provided''"
    from False assms(3) st have "step L (s, fs) = (Continue, send_response L s2 ?r, fs)"
      by (simp add: handle_request_DOWNLOAD)
    moreover have "status ?r \<noteq> Success" by (simp add: error_response_def)
    moreover note answer_written [OF assms(1), of L ?r]
    ultimately show ?thesis using False
      by (intro exI [of _ "send_response L s2 ?r"]) (auto simp: Let_def)
  next
    case True
    show ?thesis
    proof (cases "status (get_file L fs ?filename) = Success")
      case False
      from get_file_error [OF False] obtain m
        where m: "get_file L fs ?filename = error_response m" by blast
      let ?r = "error_response m"
      from True False assms(3) st m
      have "step L (s, fs) = (Continue, send_response L s2 ?r, fs)"
        by (simp add: handle_request_DOWNLOAD Let_def)
      moreover have "status ?r \<noteq> Success" by (simp add: error_response_def)
      moreover note answer_written [OF assms(1), of L ?r]
      ultimately show ?thesis using True m
        by (intro exI [of _ "send_response L s2 ?r"]) (auto simp: Let_def)
    next
      case succ: True
      from get_file_success [OF succ] obtain fn d
        where f: "?filename = PStr fn" and rd: "read_file fs fn = Inr d"
          and g: "get_file L fs ?filename =
            \<lparr>status = Success, message = None, rsize = Some (length d), files = None,
             data = Some d\<rparr>"
        by blast
      let ?r = "\<lparr>status = Success, message = None, rsize = Some (length d), files = None,
                 data = None\<rparr>"
      let ?s' = "send_file_data (send_response L s2 ?r) d"
      from True f have ne: "fn \<noteq> []" by simp
      from True succ assms(3) st g
      have s: "step L (s, fs) = (Continue, ?s', fs)"
        by (simp add: handle_request_DOWNLOAD Let_def)
      have o: "outbound ?s' = outbound s @ control_frame L ?r @ payload_frame d"
        using answer_written [OF assms(1), of L ?r]
        by (simp add: outbound_send_file_data_frame)
      have "\<exists>fn' d'. ?filename = PStr fn' \<and> fn' \<noteq> [] \<and> read_file fs fn' = Inr d' \<and>
          outbound ?s' = outbound s @
            control_frame L \<lparr>status = Success, message = None, rsize = Some (length d'),
              files = None, data = None\<rparr> @ payload_frame d'"
        using f ne rd o by blast
      with s True succ show ?thesis
        by (intro exI [of _ ?s']) (simp add: Let_def)
    qed
  qed
qed

theorem C2_payload_iff_success_witness:
  \<open>outbound (fst (snd (step example_lib
       (sock_of [control_frame_of ''{"command": "DOWNLOAD", "filename": "a.txt"}''],
        fs_example)))) =
     [0, 0, 0, 32] @
     encode_ascii (dumps_response
       \<lparr>status = Success, message = None, rsize = Some 2, files = None, data = None\<rparr>) @
     [0, 0, 0, 0, 0, 0, 0, 2, 104, 105] \<and>
   outbound (fst (snd (step example_lib
       (sock_of [control_frame_of ''{"command": "DOWNLOAD", "filename": "a.txt"}''],
        fs_empty)))) =
     [0, 0, 0, 54] @ encode_ascii (dumps_response (error_response ''File a.txt not found''))\<close>
proof -
  let ?rq = "[''command'' \<mapsto> PStr ''DOWNLOAD'', ''filename'' \<mapsto> PStr ''a.txt'']"
  let ?s = \<open>sock_of [control_frame_of ''{"command": "DOWNLOAD", "filename": "a.txt"}'']\<close>
  let ?ok = "\<lparr>status = Success, message = None, rsize = Some 2, files = None, data = None\<rparr>"
  have rf: \<open>reads_frame ?s
      (encode_ascii ''{"command": "DOWNLOAD", "filename": "a.txt"}'') (sock_of [])\<close>
    by (rule reads_control_frame_of) simp_all
  have ld: \<open>json_loads example_lib
      (encode_ascii ''{"command": "DOWNLOAD", "filename": "a.txt"}'') = Loaded_dict ?rq\<close>
    by (simp add: example_lib_def example_loads_def example_requests_def encode_ascii_def)
  have cmd: "dict_get ?rq ''command'' (PStr []) = PStr ''DOWNLOAD''"
    by (simp add: dict_get_def)
  have fnm: "dict_get ?rq ''filename'' (PStr []) = PStr ''a.txt''"
    by (simp add: dict_get_def)
  have o: "outbound ?s = []" by (simp add: sock_of_def)
  have g1: "get_file example_lib fs_example (PStr ''a.txt'') =
      \<lparr>status = Success, message = None, rsize = Some 2, files = None, data = Some [104, 105]\<rparr>"
    by (simp add: get_file_def os_path_exists_def lookup_def resolve_def flat_name_def
        object_at_def fs_example_def read_file_def encode_ascii_def)
  have rd: "read_file fs_example ''a.txt'' = Inr [104, 105]"
    by (simp add: resolve_def flat_name_def object_at_def fs_example_def read_file_def
        encode_ascii_def)
  have g2: "get_file example_lib fs_empty (PStr ''a.txt'') =
      error_response ''File a.txt not found''"
    by (simp add: get_file_def os_path_exists_def lookup_def resolve_def flat_name_def
        object_at_def fs_empty_def)
  have len1: "length (dumps_response ?ok) = 32"
    by (simp add: dumps_response_def dec_digit)
  have cf1: "control_frame example_lib ?ok = [0, 0, 0, 32] @ encode_ascii (dumps_response ?ok)"
    by (subst control_frame_example [OF len1]) (simp_all add: to_bytes_eval)
  have pf: "payload_frame [104, 105] = [0, 0, 0, 0, 0, 0, 0, 2, 104, 105]"
    by (simp add: payload_frame_def to_bytes_eval)
  have len2: "length (dumps_response (error_response ''File a.txt not found'')) = 54"
    by (simp add: dumps_response_def error_response_def json_string_def json_escape_def)
  have cf2: "control_frame example_lib (error_response ''File a.txt not found'') =
      [0, 0, 0, 54] @ encode_ascii (dumps_response (error_response ''File a.txt not found''))"
    by (subst control_frame_example [OF len2]) (simp_all add: to_bytes_eval)
  from C2_payload_iff_success [OF rf ld cmd, of fs_example] obtain s1
    where s1: "step example_lib (?s, fs_example) = (Continue, s1, fs_example)"
      and p1: "\<exists>fn d. PStr ''a.txt'' = PStr fn \<and> fn \<noteq> [] \<and> read_file fs_example fn = Inr d \<and>
        outbound s1 = outbound ?s @
          control_frame example_lib
            \<lparr>status = Success, message = None, rsize = Some (length d), files = None,
             data = None\<rparr> @ payload_frame d"
    by (auto simp: fnm g1 Let_def)
  from p1 obtain d where d: "read_file fs_example ''a.txt'' = Inr d"
    and od: "outbound s1 = outbound ?s @
      control_frame example_lib
        \<lparr>status = Success, message = None, rsize = Some (length d), files = None,
         data = None\<rparr> @ payload_frame d"
    by auto
  from d rd have "d = [104, 105]" by simp
  moreover have "length [104 :: byte, 105] = 2" by simp
  ultimately have "outbound s1 = outbound ?s @ control_frame example_lib ?ok @
      payload_frame [104, 105]"
    using od by (simp only:)
  with o cf1 pf have a1: "outbound s1 =
      [0, 0, 0, 32] @ encode_ascii (dumps_response ?ok) @ [0, 0, 0, 0, 0, 0, 0, 2, 104, 105]"
    by simp
  from C2_payload_iff_success [OF rf ld cmd, of fs_empty] obtain s2
    where s2: "step example_lib (?s, fs_empty) = (Continue, s2, fs_empty)"
      and p2: "outbound s2 = outbound ?s @
        control_frame example_lib (error_response ''File a.txt not found'')"
    by (auto simp: fnm g2 Let_def error_response_def)
  from p2 o cf2 have a2: "outbound s2 =
      [0, 0, 0, 54] @ encode_ascii (dumps_response (error_response ''File a.txt not found''))"
    by simp
  from s1 a1 s2 a2 show ?thesis by simp
qed


section \<open>Uploads\<close>

subsection \<open>Two uploads, computed\<close>

lemma receive_file_data_example_full:
  "receive_file_data (sock_of [[0, 0, 0, 0, 0, 0, 0, 3], [97, 98], [99]]) =
     (Some [97, 98, 99], sock_of [])"
  by (simp add: receive_file_data_def recv_def recv_loop.simps sock_of_def int_from_bytes_def)

lemma receive_file_data_example_short:
  "receive_file_data (sock_of [[0, 0, 0, 0, 0, 0, 0, 10], [97, 98, 99]]) =
     (Some [97, 98, 99], sock_of [])"
  by (simp add: receive_file_data_def recv_def recv_loop.simps sock_of_def int_from_bytes_def)

lemma store_file_example:
  "store_file example_lib fs_empty (PStr ''a.txt'') [97, 98, 99] =
     (\<lparr>status = Success, message = Some ''File a.txt stored successfully'', rsize = Some 3,
       files = None, data = None\<rparr>,
      fs_empty\<lparr>entries := [(''a.txt'', RegularFile [97, 98, 99] 9)]\<rparr>)"
  by (simp add: store_file_def write_file_def resolve_def flat_name_def object_at_def
      put_object_def fs_empty_def)

lemma upload_request_example:
  \<open>reads_frame
     (sock_of (control_frame_of ''{"command": "UPLOAD", "filename": "a.txt"}'' # rest))
     (encode_ascii ''{"command": "UPLOAD", "filename": "a.txt"}'')
     (sock_of rest)\<close>
  \<open>json_loads example_lib (encode_ascii ''{"command": "UPLOAD", "filename": "a.txt"}'') =
     Loaded_dict [''command'' \<mapsto> PStr ''UPLOAD'', ''filename'' \<mapsto> PStr ''a.txt'']\<close>
  "dict_get [''command'' \<mapsto> PStr ''UPLOAD'', ''filename'' \<mapsto> PStr ''a.txt'']
     ''command'' (PStr []) = PStr ''UPLOAD''"
  "dict_get [''command'' \<mapsto> PStr ''UPLOAD'', ''filename'' \<mapsto> PStr ''a.txt'']
     ''filename'' (PStr []) = PStr ''a.txt''"
proof -
  show \<open>reads_frame
     (sock_of (control_frame_of ''{"command": "UPLOAD", "filename": "a.txt"}'' # rest))
     (encode_ascii ''{"command": "UPLOAD", "filename": "a.txt"}'')
     (sock_of rest)\<close>
    by (rule reads_control_frame_of) simp_all
  show \<open>json_loads example_lib (encode_ascii ''{"command": "UPLOAD", "filename": "a.txt"}'') =
     Loaded_dict [''command'' \<mapsto> PStr ''UPLOAD'', ''filename'' \<mapsto> PStr ''a.txt'']\<close>
    by (simp add: example_lib_def example_loads_def example_requests_def encode_ascii_def)
qed (simp_all add: dict_get_def)

lemma upload_step_example:
  assumes "receive_file_data (sock_of rest) = (Some [97, 98, 99], sock_of [])"
  shows \<open>step example_lib
     (sock_of (control_frame_of ''{"command": "UPLOAD", "filename": "a.txt"}'' # rest),
      fs_empty) =
     (Continue,
      send_response example_lib (sock_of [])
        \<lparr>status = Success, message = Some ''File a.txt stored successfully'', rsize = Some 3,
         files = None, data = None\<rparr>,
      fs_empty\<lparr>entries := [(''a.txt'', RegularFile [97, 98, 99] 9)]\<rparr>)\<close>
  using assms upload_request_example(3,4) store_file_example
  by (simp add: step_request [OF upload_request_example(1,2)] handle_request_UPLOAD)

text \<open>
  Claim C4, at the input where the code departs from it. The client announces ten bytes
  of payload for \<open>a.txt\<close>, sends three and closes its side. \<open>receive_file_data\<close>
  leaves its loop at the empty \<open>recv\<close> and returns the three bytes, not \<open>None\<close>; the
  server stores them under \<open>a.txt\<close> and answers with a success response of size 3.
\<close>

theorem C4_truncated_upload_is_stored:
  \<open>step example_lib
     (sock_of [control_frame_of ''{"command": "UPLOAD", "filename": "a.txt"}'',
               [0, 0, 0, 0, 0, 0, 0, 10], [97, 98, 99]],
      fs_empty) =
     (Continue,
      send_response example_lib (sock_of [])
        \<lparr>status = Success, message = Some ''File a.txt stored successfully'', rsize = Some 3,
         files = None, data = None\<rparr>,
      fs_empty\<lparr>entries := [(''a.txt'', RegularFile [97, 98, 99] 9)]\<rparr>)\<close>
  by (rule upload_step_example) (rule receive_file_data_example_short)

subsection \<open>What the receiving loop does get right\<close>

lemma recv_chunks_prefix:
  "recv_chunks n cs = (chunk, rest) \<Longrightarrow>
     concat cs = chunk @ concat rest \<and> length chunk \<le> n \<and>
     (chunk = [] \<longrightarrow> n = 0 \<or> concat cs = [])"
  by (induction cs) (auto split: if_splits)

lemma recv_prefix:
  assumes "recv s n = (chunk, s')"
  shows "concat (inbound s) = chunk @ concat (inbound s')"
    and "length chunk \<le> n"
    and "chunk = [] \<Longrightarrow> n = 0 \<or> pending s = 0"
proof -
  from assms obtain rest where r: "recv_chunks n (inbound s) = (chunk, rest)"
    and s': "s' = s\<lparr>inbound := rest\<rparr>"
    by (auto simp: recv_def split: prod.splits)
  from recv_chunks_prefix [OF r] s'
  show "concat (inbound s) = chunk @ concat (inbound s')" and "length chunk \<le> n"
    by simp_all
  assume "chunk = []"
  with recv_chunks_prefix [OF r] have "n = 0 \<or> concat (inbound s) = []" by blast
  moreover have "pending s = length (concat (inbound s))"
    by (simp add: pending_def length_concat)
  ultimately show "n = 0 \<or> pending s = 0" by auto
qed

text \<open>
  When the stream still delivers the bytes that are missing, the loop returns exactly
  \<open>file_size\<close> bytes: the ones it had, then the next ones of the stream, in whatever
  pieces they arrive.
\<close>

lemma recv_loop_exact:
  "file_size \<le> length file_data + pending s \<Longrightarrow>
     fst (recv_loop file_size file_data s) =
       file_data @ take (file_size - length file_data) (concat (inbound s))"
proof (induction file_size file_data s rule: recv_loop.induct)
  case (1 file_size file_data s)
  show ?case
  proof (cases "length file_data < file_size")
    case False
    then show ?thesis by (simp add: recv_loop.simps [of file_size file_data s])
  next
    case True
    let ?n = "min 4096 (file_size - length file_data)"
    obtain chunk s1 where r: "recv s ?n = (chunk, s1)" by (cases "recv s ?n")
    from True have n: "0 < ?n" by simp
    have ne: "chunk \<noteq> []"
    proof
      assume "chunk = []"
      from recv_prefix(3) [OF r this] n have "pending s = 0" by simp
      with True "1.prems" show False by simp
    qed
    from recv_pending [OF r] "1.prems"
    have "file_size \<le> length (file_data @ chunk) + pending s1" by simp
    from "1.IH" [OF True r [symmetric] ne this]
    have "fst (recv_loop file_size (file_data @ chunk) s1) =
        (file_data @ chunk) @
        take (file_size - length (file_data @ chunk)) (concat (inbound s1))" .
    moreover from True r ne
    have "recv_loop file_size file_data s = recv_loop file_size (file_data @ chunk) s1"
      by (simp add: recv_loop.simps [of file_size file_data s])
    moreover from recv_prefix(2) [OF r] have "length chunk \<le> file_size - length file_data"
      by simp
    then have "take (file_size - length file_data) (chunk @ concat (inbound s1)) =
        chunk @ take (file_size - length (file_data @ chunk)) (concat (inbound s1))"
      by simp
    ultimately show ?thesis using recv_prefix(1) [OF r] by simp
  qed
qed

text \<open>
  An upload whose eight-byte size does not arrive in one piece is turned down with the
  error response, and the storage directory is left as it was.
\<close>

lemma upload_without_size:
  assumes "dict_get request ''command'' (PStr []) = PStr ''UPLOAD''"
    and "truthy (dict_get request ''filename'' (PStr []))"
    and "recv s 8 = (size_bytes, s1)"
    and "length size_bytes \<noteq> 8"
  shows "handle_request L request (s, fs) =
     (Continue, send_response L s1 (error_response ''Failed to receive file data''), fs)"
  using assms by (simp add: handle_request_UPLOAD receive_file_data_def)


section \<open>The fields of the responses\<close>

lemma fields_error_response:
  "populated_fields (error_response m) = expected_fields command Error"
  "status (error_response m) = Error"
  "data (error_response m) = None"
  by (simp_all add: populated_fields_def expected_fields_def error_response_def)

lemma fields_list_files:
  "populated_fields (list_files L fs) = expected_fields (PStr ''LIST'') (status (list_files L fs))"
  "data (list_files L fs) = None"
  by (simp_all add: list_files_def populated_fields_def expected_fields_def error_response_def
      split: sum.splits)

lemma fields_store_file:
  "populated_fields (fst (store_file L fs filename file_data)) =
     expected_fields (PStr ''UPLOAD'') (status (fst (store_file L fs filename file_data)))"
  "data (fst (store_file L fs filename file_data)) = None"
  by (simp_all add: store_file_def populated_fields_def expected_fields_def error_response_def
      split: pyval.splits sum.splits)

lemma fields_delete_file:
  "populated_fields (fst (delete_file L fs filename)) =
     expected_fields (PStr ''DELETE'') (status (fst (delete_file L fs filename)))"
  "data (fst (delete_file L fs filename)) = None"
  by (simp_all add: delete_file_def populated_fields_def expected_fields_def error_response_def
      split: pyval.splits sum.splits)


lemma outbound_recv_loop: "outbound (snd (recv_loop file_size file_data s)) = outbound s"
proof (induction file_size file_data s rule: recv_loop.induct)
  case (1 file_size file_data s)
  show ?case
  proof (cases "length file_data < file_size")
    case False
    then show ?thesis by (simp add: recv_loop.simps [of file_size file_data s])
  next
    case True
    let ?n = "min 4096 (file_size - length file_data)"
    obtain chunk s1 where r: "recv s ?n = (chunk, s1)" by (cases "recv s ?n")
    show ?thesis
    proof (cases "chunk = []")
      case e: True
      with True r have "recv_loop file_size file_data s = (file_data, s1)"
        by (simp add: recv_loop.simps [of file_size file_data s])
      with outbound_recv [OF r] show ?thesis by simp
    next
      case ne: False
      from "1.IH" [OF True r [symmetric] ne]
      have "outbound (snd (recv_loop file_size (file_data @ chunk) s1)) = outbound s1" .
      moreover from True r ne
      have "recv_loop file_size file_data s = recv_loop file_size (file_data @ chunk) s1"
        by (simp add: recv_loop.simps [of file_size file_data s])
      ultimately show ?thesis using outbound_recv [OF r] by simp
    qed
  qed
qed

lemma outbound_receive_file_data:
  assumes "receive_file_data s = (got, s')"
  shows "outbound s' = outbound s"
proof -
  obtain size_bytes s1 where r: "recv s 8 = (size_bytes, s1)" by (cases "recv s 8")
  show ?thesis
  proof (cases "length size_bytes = 8")
    case False
    with r assms have "s' = s1" by (simp add: receive_file_data_def)
    with outbound_recv [OF r] show ?thesis by simp
  next
    case True
    with r assms have "s' = snd (recv_loop (int_from_bytes size_bytes) [] s1)"
      by (auto simp: receive_file_data_def Let_def split: prod.splits)
    with outbound_recv [OF r] show ?thesis by (simp add: outbound_recv_loop)
  qed
qed

text \<open>
  What a turn writes for a request whose command can be printed: the control frame of one
  response, whose fields follow the command and the status, and after it the payload
  frame when the request is a download that succeeds.
\<close>

lemma handle_request_fields:
  assumes "can_print L (py_str (dict_get request ''command'' (PStr [])))"
  shows "\<exists>c r s' fs'. handle_request L request (s, fs) = (c, s', fs') \<and>
     populated_fields r = expected_fields (dict_get request ''command'' (PStr [])) (status r) \<and>
     data r = None \<and>
     (if dict_get request ''command'' (PStr []) = PStr ''DOWNLOAD'' \<and> status r = Success
      then \<exists>d. rsize r = Some (length d) \<and>
             outbound s' = outbound s @ control_frame L r @ payload_frame d
      else outbound s' = outbound s @ control_frame L r)"
proof -
  let ?cmd = "dict_get request ''command'' (PStr [])"
  let ?filename = "dict_get request ''filename'' (PStr [])"
  let ?P = "\<lambda>c r s' fs'. handle_request L request (s, fs) = (c, s', fs') \<and>
     populated_fields r = expected_fields ?cmd (status r) \<and> data r = None \<and>
     (if ?cmd = PStr ''DOWNLOAD'' \<and> status r = Success
      then \<exists>d. rsize r = Some (length d) \<and>
             outbound s' = outbound s @ control_frame L r @ payload_frame d
      else outbound s' = outbound s @ control_frame L r)"
  have sent: "\<exists>c r s' fs'. ?P c r s' fs'"
    if "handle_request L request (s, fs) = (c, send_response L s1 r, fs')"
      and "outbound s1 = outbound s"
      and "populated_fields r = expected_fields ?cmd (status r)" and "data r = None"
      and "?cmd \<noteq> PStr ''DOWNLOAD'' \<or> status r \<noteq> Success"
    for c r s1 fs'
  proof -
    from that(2) have "outbound (send_response L s1 r) = outbound s @ control_frame L r"
      by (simp add: outbound_send_response_frame)
    with that(1,3,4,5) have "?P c r (send_response L s1 r) fs'" by auto
    then show ?thesis by blast
  qed
  have err: "populated_fields (error_response m) = expected_fields ?cmd (status (error_response m))"
    for m by (simp add: fields_error_response)
  have errs: "?cmd \<noteq> PStr ''DOWNLOAD'' \<or> status (error_response m) \<noteq> Success" for m
    by (simp add: error_response_def)
  consider "?cmd = PStr ''LIST''" | "?cmd = PStr ''UPLOAD''" | "?cmd = PStr ''DOWNLOAD''"
    | "?cmd = PStr ''DELETE''" | "?cmd = PStr ''QUIT''" | "\<not> known_command ?cmd"
    unfolding known_command_def by blast
  then show ?thesis
  proof cases
    case 1
    have h: "handle_request L request (s, fs) =
        (Continue, send_response L s (list_files L fs), fs)"
      using 1 by (simp add: handle_request_LIST)
    have f: "populated_fields (list_files L fs) =
        expected_fields ?cmd (status (list_files L fs))"
      using 1 fields_list_files(1) [of L fs] by simp
    from 1 have n: "?cmd \<noteq> PStr ''DOWNLOAD'' \<or> status (list_files L fs) \<noteq> Success" by simp
    from sent [OF h refl f fields_list_files(2) n] show ?thesis .
  next
    case 2
    show ?thesis
    proof (cases "truthy ?filename")
      case False
      with 2 have h: "handle_request L request (s, fs) =
          (Continue, send_response L s (error_response ''Filename not provided''), fs)"
        by (simp add: handle_request_UPLOAD)
      from sent [OF h refl err fields_error_response(3) errs] show ?thesis .
    next
      case True
      obtain got s3 where rf: "receive_file_data s = (got, s3)"
        by (cases "receive_file_data s")
      note o3 = outbound_receive_file_data [OF rf]
      show ?thesis
      proof (cases got)
        case None
        with 2 True rf have h: "handle_request L request (s, fs) =
            (Continue, send_response L s3 (error_response ''Failed to receive file data''), fs)"
          by (simp add: handle_request_UPLOAD)
        from sent [OF h o3 err fields_error_response(3) errs] show ?thesis .
      next
        case (Some file_data)
        obtain r fs' where sf: "store_file L fs ?filename file_data = (r, fs')"
          by (cases "store_file L fs ?filename file_data")
        from fields_store_file [of L fs ?filename file_data] sf 2
        have f: "populated_fields r = expected_fields ?cmd (status r)" and d: "data r = None"
          by simp_all
        from 2 True rf Some sf have h: "handle_request L request (s, fs) =
            (Continue, send_response L s3 r, fs')"
          by (simp add: handle_request_UPLOAD)
        from 2 have n: "?cmd \<noteq> PStr ''DOWNLOAD'' \<or> status r \<noteq> Success" by simp
        from sent [OF h o3 f d n] show ?thesis .
      qed
    qed
  next
    case 3
    show ?thesis
    proof (cases "truthy ?filename")
      case False
      with 3 have h: "handle_request L request (s, fs) =
          (Continue, send_response L s (error_response ''Filename not provided''), fs)"
        by (simp add: handle_request_DOWNLOAD)
      from sent [OF h refl err fields_error_response(3) errs] show ?thesis .
    next
      case True
      show ?thesis
      proof (cases "status (get_file L fs ?filename) = Success")
        case False
        from get_file_error [OF False] obtain m
          where m: "get_file L fs ?filename = error_response m" by blast
        with 3 True False have h: "handle_request L request (s, fs) =
            (Continue, send_response L s (error_response m), fs)"
          by (simp add: handle_request_DOWNLOAD Let_def)
        from sent [OF h refl err fields_error_response(3) errs] show ?thesis .
      next
        case succ: True
        from get_file_success [OF succ] obtain fn d
          where g: "get_file L fs ?filename =
            \<lparr>status = Success, message = None, rsize = Some (length d), files = None,
             data = Some d\<rparr>"
          by blast
        let ?r = "\<lparr>status = Success, message = None, rsize = Some (length d), files = None,
                   data = None\<rparr>"
        let ?s' = "send_file_data (send_response L s ?r) d"
        from 3 True succ g
        have h: "handle_request L request (s, fs) = (Continue, ?s', fs)"
          by (simp add: handle_request_DOWNLOAD Let_def)
        have o: "outbound ?s' = outbound s @ control_frame L ?r @ payload_frame d"
          by (simp add: outbound_send_file_data_frame outbound_send_response_frame)
        from 3 have f: "populated_fields ?r = expected_fields ?cmd (status ?r)"
          by (simp add: populated_fields_def expected_fields_def)
        have "\<exists>d'. rsize ?r = Some (length d') \<and>
            outbound ?s' = outbound s @ control_frame L ?r @ payload_frame d'"
          using o by auto
        with 3 h f have "?P Continue ?r ?s' fs" by simp
        then show ?thesis by blast
      qed
    qed
  next
    case 4
    show ?thesis
    proof (cases "truthy ?filename")
      case False
      with 4 have h: "handle_request L request (s, fs) =
          (Continue, send_response L s (error_response ''Filename not provided''), fs)"
        by (simp add: handle_request_DELETE)
      from sent [OF h refl err fields_error_response(3) errs] show ?thesis .
    next
      case True
      obtain r fs' where df: "delete_file L fs ?filename = (r, fs')"
        by (cases "delete_file L fs ?filename")
      from fields_delete_file [of L fs ?filename] df 4
      have f: "populated_fields r = expected_fields ?cmd (status r)" and d: "data r = None"
        by simp_all
      from 4 True df have h: "handle_request L request (s, fs) =
          (Continue, send_response L s r, fs')"
        by (simp add: handle_request_DELETE)
      from 4 have n: "?cmd \<noteq> PStr ''DOWNLOAD'' \<or> status r \<noteq> Success" by simp
      from sent [OF h refl f d n] show ?thesis .
    qed
  next
    case 5
    let ?r = "\<lparr>status = Success, message = Some ''Goodbye!'', rsize = None, files = None,
               data = None\<rparr>"
    from 5 have h: "handle_request L request (s, fs) = (Break, send_response L s ?r, fs)"
      by (simp add: handle_request_QUIT)
    from 5 have f: "populated_fields ?r = expected_fields ?cmd (status ?r)"
      by (simp add: populated_fields_def expected_fields_def)
    have d: "data ?r = None" by simp
    from 5 have n: "?cmd \<noteq> PStr ''DOWNLOAD'' \<or> status ?r \<noteq> Success" by simp
    from sent [OF h refl f d n] show ?thesis .
  next
    case 6
    with assms have h: "handle_request L request (s, fs) =
        (Continue,
         send_response L s (error_response (''Unknown command: '' @ py_str ?cmd)), fs)"
      by (simp add: handle_request_unknown)
    from sent [OF h refl err fields_error_response(3) errs] show ?thesis .
  qed
qed

lemma populated_expected:
  "populated_fields r = expected_fields command (status r) \<Longrightarrow>
     populated r = (if status r = Success \<and> command = PStr ''UPLOAD'' then 2 else 1)"
  by (cases "status r")
    (auto simp: populated_fields_def expected_fields_def populated_def split: if_splits)

lemma reads_frame_unique:
  assumes "reads_frame s request_data s2" and "reads_frame s request_data' s2'"
  shows "request_data' = request_data \<and> s2' = s2"
proof -
  obtain length_bytes s1 where r1: "recv s 4 = (length_bytes, s1)" by (cases "recv s 4")
  with assms show ?thesis by (simp add: reads_frame_def)
qed

lemma step_no_frame:
  assumes "\<forall>request_data s2. \<not> reads_frame s request_data s2"
  shows "\<exists>s'. step L (s, fs) = (Break, s', fs) \<and> outbound s' = outbound s"
proof -
  obtain length_bytes s1 where r1: "recv s 4 = (length_bytes, s1)" by (cases "recv s 4")
  obtain request_data s2 where r2: "recv s1 (int_from_bytes length_bytes) = (request_data, s2)"
    by (cases "recv s1 (int_from_bytes length_bytes)")
  from assms r1 r2 have e: "length_bytes = [] \<or> request_data = []"
    by (auto simp: reads_frame_def)
  from outbound_recv [OF r1] outbound_recv [OF r2]
  have o: "outbound s1 = outbound s" "outbound s2 = outbound s" by simp_all
  show ?thesis
  proof (cases "length_bytes = []")
    case True
    with r1 o show ?thesis by (simp add: step_def)
  next
    case False
    with e have "request_data = []" by simp
    with False r1 r2 o show ?thesis by (simp add: step_def Let_def)
  qed
qed

lemma step_frame_fields:
  assumes "reads_frame s request_data s2"
  shows "\<exists>c s' fs'. step L (s, fs) = (c, s', fs') \<and>
     (case json_loads L request_data of
        Raises_JSONDecodeError \<Rightarrow>
          outbound s' = outbound s @ control_frame L (error_response ''Invalid request format'')
      | Loaded_dict request \<Rightarrow>
          (let command = dict_get request ''command'' (PStr []) in
           if can_print L (py_str command) then
             \<exists>r. populated_fields r = expected_fields command (status r) \<and>
                 data r = None \<and>
                 populated r = (if status r = Success \<and> command = PStr ''UPLOAD'' then 2 else 1) \<and>
                 (if command = PStr ''DOWNLOAD'' \<and> status r = Success
                  then \<exists>d. rsize r = Some (length d) \<and>
                         outbound s' = outbound s @ control_frame L r @ payload_frame d
                  else outbound s' = outbound s @ control_frame L r)
           else outbound s' = outbound s)
      | _ \<Rightarrow> outbound s' = outbound s)"
proof (cases "json_loads L request_data")
  case Raises_JSONDecodeError
  with assms answer_written [OF assms, of L "error_response ''Invalid request format''"]
  show ?thesis by (simp add: step_reads_frame)
next
  case Raises_other
  with assms reads_frame_outbound [OF assms] show ?thesis by (simp add: step_reads_frame)
next
  case Loaded_non_dict
  with assms reads_frame_outbound [OF assms] show ?thesis by (simp add: step_reads_frame)
next
  case (Loaded_dict request)
  let ?cmd = "dict_get request ''command'' (PStr [])"
  from assms Loaded_dict have st: "step L (s, fs) = handle_request L request (s2, fs)"
    by (rule step_request)
  show ?thesis
  proof (cases "can_print L (py_str ?cmd)")
    case False
    with st reads_frame_outbound [OF assms] Loaded_dict show ?thesis
      by (simp add: handle_request_unprintable)
  next
    case True
    from handle_request_fields [OF True, of s2 fs] obtain c r s' fs'
      where h: "handle_request L request (s2, fs) = (c, s', fs')"
        and f: "populated_fields r = expected_fields ?cmd (status r)"
        and d: "data r = None"
        and o: "if ?cmd = PStr ''DOWNLOAD'' \<and> status r = Success
          then \<exists>d. rsize r = Some (length d) \<and>
                 outbound s' = outbound s2 @ control_frame L r @ payload_frame d
          else outbound s' = outbound s2 @ control_frame L r"
      by blast
    from f d o populated_expected [OF f] reads_frame_outbound [OF assms]
    have "\<exists>r. populated_fields r = expected_fields ?cmd (status r) \<and> data r = None \<and>
        populated r = (if status r = Success \<and> ?cmd = PStr ''UPLOAD'' then 2 else 1) \<and>
        (if ?cmd = PStr ''DOWNLOAD'' \<and> status r = Success
         then \<exists>d. rsize r = Some (length d) \<and>
                outbound s' = outbound s @ control_frame L r @ payload_frame d
         else outbound s' = outbound s @ control_frame L r)"
      by (intro exI [of _ r]) (auto split: if_splits)
    with st h True Loaded_dict show ?thesis by (simp add: Let_def)
  qed
qed

text \<open>
  Claim C5, as the code has it. A turn of the loop produces at most one response. It
  produces none, and writes nothing, when no frame is read, when the payload of the
  frame is not UTF-8 or not a dictionary, and when the command cannot be printed: these
  turns end the loop. Every other turn writes the control frame of one response (and
  after it the payload frame, for a download that succeeds), and the optional fields of
  that response are populated by the kind of command and the status: \<open>files\<close> alone
  for a successful \<open>LIST\<close>, \<open>size\<close> alone for a successful \<open>DOWNLOAD\<close>, \<open>message\<close>
  and \<open>size\<close> together for a successful \<open>UPLOAD\<close>, and \<open>message\<close> alone for every
  error (the answer \<open>Invalid request format\<close> to a payload that is not JSON among
  them), for \<open>QUIT\<close> and for a successful \<open>DELETE\<close>. So exactly one of the three is
  populated, except after a successful \<open>UPLOAD\<close>, where two are.
\<close>

theorem C5_response_fields:
  "\<exists>c s' fs'. step L (s, fs) = (c, s', fs') \<and>
     ((\<forall>request_data s2. \<not> reads_frame s request_data s2) \<longrightarrow>
        c = Break \<and> outbound s' = outbound s) \<and>
     (\<forall>request_data s2. reads_frame s request_data s2 \<longrightarrow>
        (case json_loads L request_data of
           Raises_JSONDecodeError \<Rightarrow>
             outbound s' =
               outbound s @ control_frame L (error_response ''Invalid request format'')
         | Loaded_dict request \<Rightarrow>
             (let command = dict_get request ''command'' (PStr []) in
              if can_print L (py_str command) then
                \<exists>r. populated_fields r = expected_fields command (status r) \<and>
                    data r = None \<and>
                    populated r =
                      (if status r = Success \<and> command = PStr ''UPLOAD'' then 2 else 1) \<and>
                    (if command = PStr ''DOWNLOAD'' \<and> status r = Success
                     then \<exists>d. rsize r = Some (length d) \<and>
                            outbound s' = outbound s @ control_frame L r @ payload_frame d
                     else outbound s' = outbound s @ control_frame L r)
              else outbound s' = outbound s)
         | _ \<Rightarrow> outbound s' = outbound s)) \<and>
     populated_fields (error_response ''Invalid request format'') = (True, False, False) \<and>
     populated (error_response ''Invalid request format'') = 1"
proof -
  have e: "populated_fields (error_response ''Invalid request format'') = (True, False, False)"
    "populated (error_response ''Invalid request format'') = 1"
    by (simp_all add: populated_fields_def populated_def error_response_def)
  show ?thesis
  proof (cases "\<exists>request_data s2. reads_frame s request_data s2")
    case False
    then have n: "\<forall>request_data s2. \<not> reads_frame s request_data s2" by blast
    from step_no_frame [OF n, of L fs] obtain s'
      where "step L (s, fs) = (Break, s', fs)" and "outbound s' = outbound s" by blast
    with n e show ?thesis by simp
  next
    case True
    then obtain request_data s2 where rf: "reads_frame s request_data s2" by blast
    from step_frame_fields [OF rf, of L fs] obtain c s' fs'
      where st: "step L (s, fs) = (c, s', fs')"
        and p: "case json_loads L request_data of
           Raises_JSONDecodeError \<Rightarrow>
             outbound s' =
               outbound s @ control_frame L (error_response ''Invalid request format'')
         | Loaded_dict request \<Rightarrow>
             (let command = dict_get request ''command'' (PStr []) in
              if can_print L (py_str command) then
                \<exists>r. populated_fields r = expected_fields command (status r) \<and>
                    data r = None \<and>
                    populated r =
                      (if status r = Success \<and> command = PStr ''UPLOAD'' then 2 else 1) \<and>
                    (if command = PStr ''DOWNLOAD'' \<and> status r = Success
                     then \<exists>d. rsize r = Some (length d) \<and>
                            outbound s' = outbound s @ control_frame L r @ payload_frame d
                     else outbound s' = outbound s @ control_frame L r)
              else outbound s' = outbound s)
         | _ \<Rightarrow> outbound s' = outbound s"
      by blast
    have u: "request_data' = request_data" if "reads_frame s request_data' s2'"
      for request_data' s2'
      using reads_frame_unique [OF rf that] by simp
    from rf have nn: "\<not> (\<forall>request_data s2. \<not> reads_frame s request_data s2)" by blast
    show ?thesis
    proof (intro exI conjI)
      show "step L (s, fs) = (c, s', fs')" by (rule st)
      show "(\<forall>request_data s2. \<not> reads_frame s request_data s2) \<longrightarrow>
          c = Break \<and> outbound s' = outbound s"
        using nn by blast
      show "populated_fields (error_response ''Invalid request format'') = (True, False, False)"
        by (rule e(1))
      show "populated (error_response ''Invalid request format'') = 1" by (rule e(2))
      show "\<forall>request_data s2. reads_frame s request_data s2 \<longrightarrow>
        (case json_loads L request_data of
           Raises_JSONDecodeError \<Rightarrow>
             outbound s' =
               outbound s @ control_frame L (error_response ''Invalid request format'')
         | Loaded_dict request \<Rightarrow>
             (let command = dict_get request ''command'' (PStr []) in
              if can_print L (py_str command) then
                \<exists>r. populated_fields r = expected_fields command (status r) \<and>
                    data r = None \<and>
                    populated r =
                      (if status r = Success \<and> command = PStr ''UPLOAD'' then 2 else 1) \<and>
                    (if command = PStr ''DOWNLOAD'' \<and> status r = Success
                     then \<exists>d. rsize r = Some (length d) \<and>
                            outbound s' = outbound s @ control_frame L r @ payload_frame d
                     else outbound s' = outbound s @ control_frame L r)
              else outbound s' = outbound s)
         | _ \<Rightarrow> outbound s' = outbound s)"
      proof (intro allI impI)
        fix request_data' s2'
        assume "reads_frame s request_data' s2'"
        then have "request_data' = request_data" by (rule u)
        with p show "case json_loads L request_data' of
           Raises_JSONDecodeError \<Rightarrow>
             outbound s' =
               outbound s @ control_frame L (error_response ''Invalid request format'')
         | Loaded_dict request \<Rightarrow>
             (let command = dict_get request ''command'' (PStr []) in
              if can_print L (py_str command) then
                \<exists>r. populated_fields r = expected_fields command (status r) \<and>
                    data r = None \<and>
                    populated r =
                      (if status r = Success \<and> command = PStr ''UPLOAD'' then 2 else 1) \<and>
                    (if command = PStr ''DOWNLOAD'' \<and> status r = Success
                     then \<exists>d. rsize r = Some (length d) \<and>
                            outbound s' = outbound s @ control_frame L r @ payload_frame d
                     else outbound s' = outbound s @ control_frame L r)
              else outbound s' = outbound s)
         | _ \<Rightarrow> outbound s' = outbound s"
          by (simp only:)
      qed
    qed
  qed
qed

theorem C5_response_fields_witness:
  \<open>\<exists>r. populated_fields r = expected_fields (PStr ''LIST'') (status r) \<and> data r = None \<and>
      populated r = 1 \<and>
      outbound (fst (snd (step example_lib
        (sock_of [control_frame_of ''{"command": "LIST"}''], fs_example)))) =
        control_frame example_lib r\<close>
proof -
  let ?s = \<open>sock_of [control_frame_of ''{"command": "LIST"}'']\<close>
  have rf: \<open>reads_frame ?s (encode_ascii ''{"command": "LIST"}'') (sock_of [])\<close>
    by (rule reads_control_frame_of) simp_all
  have ld: \<open>json_loads example_lib (encode_ascii ''{"command": "LIST"}'') =
      Loaded_dict [''command'' \<mapsto> PStr ''LIST'']\<close>
    by (simp add: example_lib_def example_loads_def example_requests_def encode_ascii_def)
  have cmd: "dict_get [''command'' \<mapsto> PStr ''LIST''] ''command'' (PStr []) = PStr ''LIST''"
    by (simp add: dict_get_def)
  have cp: "can_print example_lib ''LIST''" by (simp add: can_print_def)
  have o: "outbound ?s = []" by (simp add: sock_of_def)
  from C5_response_fields [of example_lib ?s fs_example] obtain c s' fs'
    where st: "step example_lib (?s, fs_example) = (c, s', fs')"
      and a: \<open>\<forall>request_data s2. reads_frame ?s request_data s2 \<longrightarrow>
        (case json_loads example_lib request_data of
           Raises_JSONDecodeError \<Rightarrow>
             outbound s' =
               outbound ?s @ control_frame example_lib (error_response ''Invalid request format'')
         | Loaded_dict request \<Rightarrow>
             (let command = dict_get request ''command'' (PStr []) in
              if can_print example_lib (py_str command) then
                \<exists>r. populated_fields r = expected_fields command (status r) \<and>
                    data r = None \<and>
                    populated r =
                      (if status r = Success \<and> command = PStr ''UPLOAD'' then 2 else 1) \<and>
                    (if command = PStr ''DOWNLOAD'' \<and> status r = Success
                     then \<exists>d. rsize r = Some (length d) \<and>
                            outbound s' =
                              outbound ?s @ control_frame example_lib r @ payload_frame d
                     else outbound s' = outbound ?s @ control_frame example_lib r)
              else outbound s' = outbound ?s)
         | _ \<Rightarrow> outbound s' = outbound ?s)\<close>
    by blast
  from a rf have \<open>case json_loads example_lib (encode_ascii ''{"command": "LIST"}'') of
           Raises_JSONDecodeError \<Rightarrow>
             outbound s' =
               outbound ?s @ control_frame example_lib (error_response ''Invalid request format'')
         | Loaded_dict request \<Rightarrow>
             (let command = dict_get request ''command'' (PStr []) in
              if can_print example_lib (py_str command) then
                \<exists>r. populated_fields r = expected_fields command (status r) \<and>
                    data r = None \<and>
                    populated r =
                      (if status r = Success \<and> command = PStr ''UPLOAD'' then 2 else 1) \<and>
                    (if command = PStr ''DOWNLOAD'' \<and> status r = Success
                     then \<exists>d. rsize r = Some (length d) \<and>
                            outbound s' =
                              outbound ?s @ control_frame example_lib r @ payload_frame d
                     else outbound s' = outbound ?s @ control_frame example_lib r)
              else outbound s' = outbound ?s)
         | _ \<Rightarrow> outbound s' = outbound ?s\<close>
    by blast
  with ld cmd cp o st show ?thesis by (simp add: Let_def)
qed

text \<open>
  The response to a successful upload has both \<open>message\<close> and \<open>size\<close>: two optional
  fields, not exactly one. Its control frame is what the turn writes.
\<close>

theorem C5_upload_success_counterexample:
  \<open>step example_lib
     (sock_of [control_frame_of ''{"command": "UPLOAD", "filename": "a.txt"}'',
               [0, 0, 0, 0, 0, 0, 0, 3], [97, 98], [99]],
      fs_empty) =
     (Continue,
      send_response example_lib (sock_of [])
        \<lparr>status = Success, message = Some ''File a.txt stored successfully'', rsize = Some 3,
         files = None, data = None\<rparr>,
      fs_empty\<lparr>entries := [(''a.txt'', RegularFile [97, 98, 99] 9)]\<rparr>) \<and>
   populated
     \<lparr>status = Success, message = Some ''File a.txt stored successfully'', rsize = Some 3,
      files = None, data = None\<rparr> = 2 \<and>
   outbound (send_response example_lib (sock_of [])
        \<lparr>status = Success, message = Some ''File a.txt stored successfully'', rsize = Some 3,
         files = None, data = None\<rparr>) =
     [0, 0, 0, 77] @
     encode_ascii (dumps_response
       \<lparr>status = Success, message = Some ''File a.txt stored successfully'', rsize = Some 3,
        files = None, data = None\<rparr>)\<close>
proof (intro conjI)
  let ?r = "\<lparr>status = Success, message = Some ''File a.txt stored successfully'',
    rsize = Some 3, files = None, data = None\<rparr>"
  show \<open>step example_lib
     (sock_of [control_frame_of ''{"command": "UPLOAD", "filename": "a.txt"}'',
               [0, 0, 0, 0, 0, 0, 0, 3], [97, 98], [99]],
      fs_empty) =
     (Continue, send_response example_lib (sock_of []) ?r,
      fs_empty\<lparr>entries := [(''a.txt'', RegularFile [97, 98, 99] 9)]\<rparr>)\<close>
    by (rule upload_step_example) (rule receive_file_data_example_full)
  show "populated ?r = 2"
    by (simp add: populated_def)
  have len: "length (dumps_response ?r) = 77"
    by (simp add: dumps_response_def json_string_def json_escape_def dec_digit)
  have cf: "control_frame example_lib ?r = [0, 0, 0, 77] @ encode_ascii (dumps_response ?r)"
    by (subst control_frame_example [OF len]) (simp_all add: to_bytes_eval)
  show "outbound (send_response example_lib (sock_of []) ?r) =
      [0, 0, 0, 77] @ encode_ascii (dumps_response ?r)"
    by (simp add: outbound_send_response_frame cf) (simp add: sock_of_def)
qed


section \<open>Frames that do not decode to a dictionary\<close>

text \<open>
  Claim C3, as the code has it. A control frame whose payload makes the decoding raise
  anything but \<open>json.JSONDecodeError\<close> (bytes that are not UTF-8), or decodes to a JSON
  value that is not a dictionary, ends the loop: nothing is sent for it and
  \<open>handle_client\<close> closes the connection. A payload that is not valid JSON is answered
  with the error response \<open>Invalid request format\<close>, the storage directory is left as it
  was, and the loop goes on with the next request.
\<close>

theorem C3_undecodable_frames:
  assumes "reads_frame s request_data s2"
  shows "(json_loads L request_data = Raises_other \<or> json_loads L request_data = Loaded_non_dict
            \<longrightarrow> step L (s, fs) = (Break, s2, fs) \<and> outbound s2 = outbound s \<and>
                handle_client L (s, fs) = (close s2, fs) \<and> closed (close s2)) \<and>
         (json_loads L request_data = Raises_JSONDecodeError
            \<longrightarrow> step L (s, fs) =
                  (Continue, send_response L s2 (error_response ''Invalid request format''), fs) \<and>
                handle_client_loop L (s, fs) =
                  handle_client_loop L
                    (send_response L s2 (error_response ''Invalid request format''), fs))"
proof (intro conjI impI)
  assume a: "json_loads L request_data = Raises_other \<or>
    json_loads L request_data = Loaded_non_dict"
  with assms show st: "step L (s, fs) = (Break, s2, fs)"
    by (auto simp: step_reads_frame)
  from assms show "outbound s2 = outbound s" by (rule reads_frame_outbound)
  from handle_client_loop_Break [OF st] show "handle_client L (s, fs) = (close s2, fs)"
    by (simp add: handle_client_def)
  show "closed (close s2)" by (simp add: close_def)
next
  assume "json_loads L request_data = Raises_JSONDecodeError"
  with assms show st: "step L (s, fs) =
      (Continue, send_response L s2 (error_response ''Invalid request format''), fs)"
    by (simp add: step_reads_frame)
  then show "handle_client_loop L (s, fs) =
      handle_client_loop L (send_response L s2 (error_response ''Invalid request format''), fs)"
    by (rule handle_client_loop_Continue)
qed

lemma example_bad_frames:
  "reads_frame (sock_of (control_frame_of ''x'' # rest)) (encode_ascii ''x'') (sock_of rest)"
  "json_loads example_lib (encode_ascii ''x'') = Raises_JSONDecodeError"
  "reads_frame (sock_of (control_frame_of ''[]'' # rest)) (encode_ascii ''[]'') (sock_of rest)"
  "json_loads example_lib (encode_ascii ''[]'') = Loaded_non_dict"
proof -
  show "reads_frame (sock_of (control_frame_of ''x'' # rest)) (encode_ascii ''x'') (sock_of rest)"
    by (rule reads_control_frame_of) simp_all
  show "reads_frame (sock_of (control_frame_of ''[]'' # rest)) (encode_ascii ''[]'')
      (sock_of rest)"
    by (rule reads_control_frame_of) simp_all
qed (simp_all add: example_lib_def example_loads_def example_requests_def encode_ascii_def)

theorem C3_undecodable_frames_witness:
  \<open>step example_lib
     (sock_of [control_frame_of ''[]'', control_frame_of ''{"command": "LIST"}''], fs_example) =
     (Break, sock_of [control_frame_of ''{"command": "LIST"}''], fs_example) \<and>
   handle_client example_lib
     (sock_of [control_frame_of ''[]'', control_frame_of ''{"command": "LIST"}''], fs_example) =
     (close (sock_of [control_frame_of ''{"command": "LIST"}'']), fs_example) \<and>
   step example_lib
     (sock_of [control_frame_of ''x'', control_frame_of ''{"command": "LIST"}''], fs_example) =
     (Continue,
      send_response example_lib (sock_of [control_frame_of ''{"command": "LIST"}''])
        (error_response ''Invalid request format''),
      fs_example)\<close>
  using C3_undecodable_frames [OF example_bad_frames(3), where L = example_lib and fs = fs_example]
    C3_undecodable_frames [OF example_bad_frames(1), where L = example_lib and fs = fs_example]
  by (simp add: example_bad_frames(2,4))

text \<open>
  The text \<open>x\<close> is not JSON. The server answers it and stays in its loop: the
  connection is not closed and an error response is sent.
\<close>

theorem C3_invalid_json_counterexample:
  \<open>json_loads example_lib (encode_ascii ''x'') = Raises_JSONDecodeError \<and>
   step example_lib
     (sock_of [control_frame_of ''x'', control_frame_of ''{"command": "LIST"}''], fs_example) =
     (Continue,
      send_response example_lib (sock_of [control_frame_of ''{"command": "LIST"}''])
        (error_response ''Invalid request format''),
      fs_example) \<and>
   outbound (send_response example_lib (sock_of [control_frame_of ''{"command": "LIST"}''])
        (error_response ''Invalid request format'')) =
     [0, 0, 0, 56] @ encode_ascii (dumps_response (error_response ''Invalid request format''))\<close>
proof (intro conjI)
  show "json_loads example_lib (encode_ascii ''x'') = Raises_JSONDecodeError"
    by (rule example_bad_frames(2))
  show \<open>step example_lib
     (sock_of [control_frame_of ''x'', control_frame_of ''{"command": "LIST"}''], fs_example) =
     (Continue,
      send_response example_lib (sock_of [control_frame_of ''{"command": "LIST"}''])
        (error_response ''Invalid request format''),
      fs_example)\<close>
    by (simp add: step_reads_frame [OF example_bad_frames(1)] example_bad_frames(2))
  have len: "length (json_dumps example_lib (error_response ''Invalid request format'')) = 56"
    by (simp add: example_lib_def encode_ascii_def dumps_response_def error_response_def
        json_string_def json_escape_def)
  have d: "json_dumps example_lib (error_response ''Invalid request format'') =
      encode_ascii (dumps_response (error_response ''Invalid request format''))"
    by (simp add: example_lib_def)
  show \<open>outbound (send_response example_lib (sock_of [control_frame_of ''{"command": "LIST"}''])
        (error_response ''Invalid request format'')) =
     [0, 0, 0, 56] @ encode_ascii (dumps_response (error_response ''Invalid request format''))\<close>
    by (simp add: outbound_send_response len to_bytes_eval) (simp add: d sock_of_def)
qed


end
